theory Spec2Isabelle
  imports Complex_Main "HOL-Library.Product_Lexorder"
begin

section \<open>Reputation engine (services/reputation.service.ts)\<close>

text \<open>
  JavaScript numbers are modelled as exact rationals: the arithmetic of
  \<open>recordOutcome\<close> is the one written in the source, without the rounding of
  IEEE doubles. The rounding of the columns the row is written to is modelled:
  \<open>recordOutcome\<close> returns the row that \<open>reputationRepo.update\<close> reads back.
\<close>

datatype OutcomeType = success | partial_success | failure | user_corrected | harmful

text \<open>The columns of the \<open>reputation\<close> table that \<open>recordOutcome\<close> reads and writes.\<close>

record Reputation =
  overallScore :: rat
  totalActions :: int
  successRate :: rat
  failureRate :: rat
  harmfulActions :: int
  userCorrections :: int

text \<open>The column defaults of db/schema/reputation.ts: the row a new agent gets.\<close>

definition default_reputation :: Reputation where
  "default_reputation =
     \<lparr>overallScore = 50, totalActions = 0, successRate = 0, failureRate = 0,
      harmfulActions = 0, userCorrections = 0\<rparr>"

fun OUTCOME_IMPACT_SCORES :: "OutcomeType \<Rightarrow> rat" where
  "OUTCOME_IMPACT_SCORES success = 5 / 10"
| "OUTCOME_IMPACT_SCORES partial_success = 2 / 10"
| "OUTCOME_IMPACT_SCORES failure = - (3 / 10)"
| "OUTCOME_IMPACT_SCORES user_corrected = - (5 / 10)"
| "OUTCOME_IMPACT_SCORES harmful = - 2"

text \<open>
  \<open>UpdateRejected\<close>: the database refuses the UPDATE and the driver's error leaves
  \<open>recordOutcome\<close>.
\<close>

datatype rep_error = ReputationNotFound string | UpdateRejected

type_synonym reputation_table = "string \<rightharpoonup> Reputation"

definition getReputation :: "reputation_table \<Rightarrow> string \<Rightarrow> rep_error + Reputation" where
  "getReputation tbl agentId =
     (case tbl agentId of
        None \<Rightarrow> Inl (ReputationNotFound agentId)
      | Some reputation \<Rightarrow> Inr reputation)"

text \<open>
  The body of \<open>recordOutcome\<close> after the row has been loaded: the values handed to
  \<open>reputationRepo.update\<close>. \<open>customImpactScore ?? table\<close> takes the custom score
  whenever one is given, also when it is zero.
\<close>

definition isSuccess :: "OutcomeType \<Rightarrow> bool" where
  "isSuccess outcomeType = (outcomeType \<in> set [success, partial_success])"

definition isFailure :: "OutcomeType \<Rightarrow> bool" where
  "isFailure outcomeType = (outcomeType \<in> set [failure, user_corrected, harmful])"

definition outcomeUpdate :: "Reputation \<Rightarrow> OutcomeType \<Rightarrow> rat option \<Rightarrow> Reputation" where
  "outcomeUpdate current outcomeType customImpactScore =
     (let impactScore =
            (case customImpactScore of
               Some c \<Rightarrow> c
             | None \<Rightarrow> OUTCOME_IMPACT_SCORES outcomeType);
          newOverallScore = max 0 (min 100 (overallScore current + impactScore));
          newTotalActions = totalActions current + 1;
          currentSuccesses = successRate current * of_int (totalActions current);
          currentFailures = failureRate current * of_int (totalActions current);
          newSuccesses = currentSuccesses + (if isSuccess outcomeType then 1 else 0);
          newFailures = currentFailures + (if isFailure outcomeType then 1 else 0);
          newSuccessRate = newSuccesses / of_int newTotalActions;
          newFailureRate = newFailures / of_int newTotalActions;
          newHarmfulActions =
            harmfulActions current + (if outcomeType = harmful then 1 else 0);
          newUserCorrections =
            userCorrections current + (if outcomeType = user_corrected then 1 else 0)
      in \<lparr>overallScore = newOverallScore,
          totalActions = newTotalActions,
          successRate = newSuccessRate,
          failureRate = newFailureRate,
          harmfulActions = newHarmfulActions,
          userCorrections = newUserCorrections\<rparr>)"

text \<open>
  The columns of db/schema/reputation.ts. A value written to a
  \<open>numeric(precision, scale)\<close> column is rounded to \<open>scale\<close> decimals, a tie away
  from zero, and refused when the rounded value has more than \<open>precision\<close> digits;
  an \<open>integer\<close> column holds the 32-bit signed integers and refuses any other.
\<close>

definition round_half_away :: "rat \<Rightarrow> int" where
  "round_half_away x = (if 0 \<le> x then \<lfloor>x + 1 / 2\<rfloor> else - \<lfloor>- x + 1 / 2\<rfloor>)"

definition numeric_column :: "nat \<Rightarrow> nat \<Rightarrow> rat \<Rightarrow> rat option" where
  "numeric_column precision scale x =
     (let digits = round_half_away (x * 10 ^ scale)
      in if 10 ^ precision \<le> \<bar>digits\<bar> then None
         else Some (of_int digits / 10 ^ scale))"

definition integer_column :: "int \<Rightarrow> int option" where
  "integer_column n = (if - 2147483648 \<le> n \<and> n \<le> 2147483647 then Some n else None)"

text \<open>
  The row that an UPDATE setting the six columns to \<open>data\<close> leaves in the table, if
  the database accepts it.
\<close>

definition column_values :: "Reputation \<Rightarrow> Reputation option" where
  "column_values data =
     (case numeric_column 5 2 (overallScore data) of
        None \<Rightarrow> None
      | Some score \<Rightarrow>
     (case integer_column (totalActions data) of
        None \<Rightarrow> None
      | Some actions \<Rightarrow>
     (case numeric_column 5 4 (successRate data) of
        None \<Rightarrow> None
      | Some succ \<Rightarrow>
     (case numeric_column 5 4 (failureRate data) of
        None \<Rightarrow> None
      | Some fail \<Rightarrow>
     (case integer_column (harmfulActions data) of
        None \<Rightarrow> None
      | Some harm \<Rightarrow>
     (case integer_column (userCorrections data) of
        None \<Rightarrow> None
      | Some corr \<Rightarrow>
          Some \<lparr>overallScore = score, totalActions = actions, successRate = succ,
                failureRate = fail, harmfulActions = harm,
                userCorrections = corr\<rparr>))))))"

text \<open>
  \<open>reputationRepo.update\<close> (repositories/reputation.repository.ts): the UPDATE with
  \<open>returning()\<close>, whose first row is the result.
\<close>

definition update ::
  "reputation_table \<Rightarrow> string \<Rightarrow> Reputation \<Rightarrow> rep_error + (Reputation \<times> reputation_table)"
  where
  "update tbl agentId data =
     (case column_values data of
        None \<Rightarrow> Inl UpdateRejected
      | Some rep \<Rightarrow> Inr (rep, tbl(agentId \<mapsto> rep)))"

definition recordOutcome ::
  "reputation_table \<Rightarrow> string \<Rightarrow> OutcomeType \<Rightarrow> rat option
     \<Rightarrow> rep_error + (Reputation \<times> reputation_table)" where
  "recordOutcome tbl agentId outcomeType customImpactScore =
     (case getReputation tbl agentId of
        Inl e \<Rightarrow> Inl e
      | Inr current \<Rightarrow>
          update tbl agentId (outcomeUpdate current outcomeType customImpactScore))"

text \<open>The clamp of the specification, written by cases.\<close>

definition clamp_spec :: "rat \<Rightarrow> rat \<Rightarrow> rat \<Rightarrow> rat" where
  "clamp_spec x lo hi = (if x < lo then lo else if hi < x then hi else x)"

text \<open>
  A number with at most \<open>scale\<close> decimals, and a row as the table holds it: the two
  rates and the score within the ranges of the schema's constraints (README.md,
  \<open>valid_overall_score\<close>, \<open>valid_success_rate\<close>, \<open>valid_failure_rate\<close>,
  \<open>valid_counts\<close>) and every value one of its column's type.
\<close>

definition decimals :: "nat \<Rightarrow> rat \<Rightarrow> bool" where
  "decimals scale x = (of_int \<lfloor>x * 10 ^ scale\<rfloor> = x * 10 ^ scale)"

definition stored_row :: "Reputation \<Rightarrow> bool" where
  "stored_row r =
     (0 \<le> overallScore r \<and> overallScore r \<le> 100 \<and> decimals 2 (overallScore r)
      \<and> 0 \<le> successRate r \<and> successRate r \<le> 1 \<and> decimals 4 (successRate r)
      \<and> 0 \<le> failureRate r \<and> failureRate r \<le> 1 \<and> decimals 4 (failureRate r)
      \<and> 0 \<le> totalActions r \<and> totalActions r \<le> 2147483647
      \<and> 0 \<le> harmfulActions r \<and> harmfulActions r \<le> 2147483647
      \<and> 0 \<le> userCorrections r \<and> userCorrections r \<le> 2147483647)"




section \<open>Capability engine (services/capability.service.ts)\<close>

text \<open>
  A \<open>Date\<close> is its number of milliseconds since the epoch. JSON values are those a
  \<open>jsonb\<close> column holds; an object is the list of its members, whose keys are
  distinct in a stored value.
\<close>

datatype json =
    JNull
  | JBool bool
  | JNum rat
  | JStr string
  | JArr "json list"
  | JObj "(string \<times> json) list"

datatype capability_status = cap_active | cap_expired | cap_revoked

record Capability =
  cap_id :: string
  cap_agentId :: string
  cap_scope :: "(string \<times> json) list"
  issuedBy :: string
  issuedAt :: int
  expiresAt :: int
  cap_status :: capability_status
  tokenHash :: string
  revokedAt :: "int option"

text \<open>
  What \<open>scope[key]\<close> evaluates to on an object parsed from JSON: the member of that
  name if the object has one; otherwise what the object inherits from
  \<open>Object.prototype\<close> under that name (a function, or the prototype itself for
  \<open>__proto__\<close>); otherwise \<open>undefined\<close>.
\<close>

datatype jsval = JSUndefined | JSValue json | JSInherited string

definition object_prototype_keys :: "string list" where
  "object_prototype_keys =
     [''constructor'', ''hasOwnProperty'', ''isPrototypeOf'', ''propertyIsEnumerable'',
      ''toLocaleString'', ''toString'', ''valueOf'', ''__proto__'',
      ''__defineGetter__'', ''__defineSetter__'', ''__lookupGetter__'',
      ''__lookupSetter__'']"

definition js_get :: "(string \<times> json) list \<Rightarrow> string \<Rightarrow> jsval" where
  "js_get obj key =
     (case map_of obj key of
        Some v \<Rightarrow> JSValue v
      | None \<Rightarrow> if key \<in> set object_prototype_keys then JSInherited key else JSUndefined)"

text \<open>The truthiness test of \<open>if (v)\<close>.\<close>

fun json_truthy :: "json \<Rightarrow> bool" where
  "json_truthy JNull = False"
| "json_truthy (JBool b) = b"
| "json_truthy (JNum n) = (n \<noteq> 0)"
| "json_truthy (JStr s) = (s \<noteq> [])"
| "json_truthy (JArr xs) = True"
| "json_truthy (JObj ms) = True"

fun truthy :: "jsval \<Rightarrow> bool" where
  "truthy JSUndefined = False"
| "truthy (JSValue v) = json_truthy v"
| "truthy (JSInherited k) = True"

text \<open>CapabilityRepository: the table is the list of its rows.\<close>

definition findByTokenHash :: "Capability list \<Rightarrow> string \<Rightarrow> Capability option" where
  "findByTokenHash tbl h = find (\<lambda>c. tokenHash c = h) tbl"

definition findActiveForAgent :: "Capability list \<Rightarrow> int \<Rightarrow> string \<Rightarrow> Capability list" where
  "findActiveForAgent tbl now agentId =
     filter (\<lambda>c. cap_agentId c = agentId \<and> cap_status c = cap_active \<and> expiresAt c \<ge> now) tbl"

record validation =
  valid :: bool
  capability :: "Capability option"
  reason :: "string option"

text \<open>\<open>validateToken\<close>; \<open>sha256\<close> is the digest function of the crypto package.\<close>

definition validateToken ::
  "(string \<Rightarrow> string) \<Rightarrow> Capability list \<Rightarrow> int \<Rightarrow> string \<Rightarrow> validation" where
  "validateToken sha256 tbl now token =
     (let tokenHash = sha256 token in
      case findByTokenHash tbl tokenHash of
        None \<Rightarrow> \<lparr>valid = False, capability = None, reason = Some ''Token not found''\<rparr>
      | Some c \<Rightarrow>
          if cap_status c = cap_revoked
          then \<lparr>valid = False, capability = Some c, reason = Some ''Token revoked''\<rparr>
          else if cap_status c = cap_expired \<or> now > expiresAt c
          then \<lparr>valid = False, capability = Some c, reason = Some ''Token expired''\<rparr>
          else \<lparr>valid = True, capability = Some c, reason = None\<rparr>)"

datatype permission = Allowed jsval | Denied string

text \<open>\<open>action.split(':')[0]\<close>: the part before the first colon, or all of it.\<close>

definition actionPrefix :: "string \<Rightarrow> string" where
  "actionPrefix action = takeWhile (\<lambda>c. c \<noteq> CHR '':'') action"

fun checkPermission_loop :: "Capability list \<Rightarrow> string \<Rightarrow> permission" where
  "checkPermission_loop [] action =
     Denied (''No capability grants permission for: '' @ action)"
| "checkPermission_loop (cap # capabilities) action =
     (let scope = cap_scope cap in
      if truthy (js_get scope action) then Allowed (js_get scope action)
      else if truthy (js_get scope (actionPrefix action @ '':*''))
      then Allowed (js_get scope (actionPrefix action @ '':*''))
      else checkPermission_loop capabilities action)"

definition checkPermission :: "Capability list \<Rightarrow> int \<Rightarrow> string \<Rightarrow> string \<Rightarrow> permission" where
  "checkPermission tbl now agentId action =
     checkPermission_loop (findActiveForAgent tbl now agentId) action"

text \<open>A capability grants an action when its scope holds a truthy member for it.\<close>

definition grants_key :: "Capability \<Rightarrow> string \<Rightarrow> bool" where
  "grants_key cap key =
     (case map_of (cap_scope cap) key of Some v \<Rightarrow> json_truthy v | None \<Rightarrow> False)"

text \<open>
  The capability of the specification's enforcement scenario: one hour of validity from
  time 0, for agent \<open>A\<close>.
\<close>

definition example_capability :: Capability where
  "example_capability =
     \<lparr>cap_id = ''c1'', cap_agentId = ''A'',
      cap_scope = [(''tool:web.read'', JBool True),
                   (''tool:wallet.send'', JObj [(''max_value'', JNum 100)])],
      issuedBy = ''admin'', issuedAt = 0, expiresAt = 3600000,
      cap_status = cap_active, tokenHash = ''h1'', revokedAt = None\<rparr>"

section \<open>Strings, bytes and numbers of the runtime\<close>

text \<open>
  A JavaScript string is the list of the bytes of its UTF-8 encoding, and a
  \<open>Buffer\<close> or \<open>Uint8Array\<close> is a list of bytes too, so \<open>TextEncoder.encode\<close> and
  \<open>Buffer.toString('utf8')\<close> on well-formed text are the identity.
\<close>

type_synonym bytes = "char list"

definition hex_val :: "char \<Rightarrow> nat option" where
  "hex_val c =
     (let n = (of_char c :: nat) in
      if 48 \<le> n \<and> n \<le> 57 then Some (n - 48)
      else if 97 \<le> n \<and> n \<le> 102 then Some (n - 87)
      else if 65 \<le> n \<and> n \<le> 70 then Some (n - 55)
      else None)"

text \<open>
  \<open>Buffer.from(s, 'hex')\<close>: pairs of hexadecimal digits of either case, up to the
  first pair that is not one; a trailing single digit is dropped.
\<close>

fun hexToBytes :: "string \<Rightarrow> bytes" where
  "hexToBytes (a # b # rest) =
     (case (hex_val a, hex_val b) of
        (Some x, Some y) \<Rightarrow> char_of (16 * x + y) # hexToBytes rest
      | _ \<Rightarrow> [])"
| "hexToBytes _ = []"

definition hex_digit :: "nat \<Rightarrow> char" where
  "hex_digit n = (if n < 10 then char_of (48 + n) else char_of (87 + n))"

text \<open>\<open>Buffer.toString('hex')\<close>: two lower-case digits for each byte.\<close>

fun bytesToHex :: "bytes \<Rightarrow> string" where
  "bytesToHex [] = []"
| "bytesToHex (b # bs) =
     hex_digit ((of_char b :: nat) div 16) # hex_digit ((of_char b :: nat) mod 16)
       # bytesToHex bs"

text \<open>
  \<open>parseInt(s, 10)\<close>: leading white space, an optional sign, then decimal digits up to
  the first other character; \<open>NaN\<close> (here \<open>None\<close>) when there is no digit. The result
  is the exact integer, without the rounding of a double; of the white space
  characters only those of ASCII are recognised.
\<close>

definition is_space :: "char \<Rightarrow> bool" where
  "is_space c = ((of_char c :: nat) \<in> set [9, 10, 11, 12, 13, 32])"

definition digit_val :: "char \<Rightarrow> nat option" where
  "digit_val c =
     (let n = (of_char c :: nat) in if 48 \<le> n \<and> n \<le> 57 then Some (n - 48) else None)"

fun parse_digits :: "string \<Rightarrow> nat \<Rightarrow> nat" where
  "parse_digits [] acc = acc"
| "parse_digits (c # cs) acc =
     (case digit_val c of
        Some d \<Rightarrow> parse_digits cs (10 * acc + d)
      | None \<Rightarrow> acc)"

definition parse_unsigned :: "string \<Rightarrow> nat option" where
  "parse_unsigned s =
     (case s of
        [] \<Rightarrow> None
      | c # cs \<Rightarrow> (case digit_val c of None \<Rightarrow> None | Some d \<Rightarrow> Some (parse_digits s 0)))"

definition parseInt10 :: "string \<Rightarrow> int option" where
  "parseInt10 s =
     (case dropWhile is_space s of
        [] \<Rightarrow> None
      | c # cs \<Rightarrow>
          if c = CHR ''-'' then map_option (\<lambda>n. - int n) (parse_unsigned cs)
          else if c = CHR ''+'' then map_option int (parse_unsigned cs)
          else map_option int (parse_unsigned (c # cs)))"

section \<open>Request authenticator (middleware/auth.ts, config.ts)\<close>

datatype agent_status = agent_active | agent_revoked

text \<open>The columns of the \<open>agents\<close> table that the authenticator and the ledger read.\<close>

record Agent =
  a_agentId :: string
  a_publicKey :: string
  a_status :: agent_status

definition findById :: "Agent list \<Rightarrow> string \<Rightarrow> Agent option" where
  "findById agents aid = find (\<lambda>a. a_agentId a = aid) agents"

text \<open>
  \<open>config.signatureTimestampWindow\<close>, from the environment variable
  \<open>SIGNATURE_TIMESTAMP_WINDOW\<close> (absent: \<open>None\<close>): \<open>parseInt(env || '300', 10)\<close>.
\<close>

definition signatureTimestampWindow :: "string option \<Rightarrow> int option" where
  "signatureTimestampWindow env =
     parseInt10 (case env of None \<Rightarrow> ''300'' | Some v \<Rightarrow> if v = [] then ''300'' else v)"

text \<open>
  A request: method, url, parsed body (absent: \<open>None\<close>) and the three headers (absent:
  \<open>None\<close>). A reply is kept as its status code and its \<open>error\<close> field; the \<open>message\<close>
  field is left out.
\<close>

record request =
  req_method :: string
  req_url :: string
  req_body :: "json option"
  x_agent_id :: "string option"
  x_timestamp :: "string option"
  x_signature :: "string option"

datatype auth_result = Rejected nat string | Authenticated Agent

text \<open>\<open>!h\<close> for a header value: absent or empty.\<close>

definition header_missing :: "string option \<Rightarrow> bool" where
  "header_missing h = (case h of None \<Rightarrow> True | Some v \<Rightarrow> v = [])"

text \<open>\<open>timeDiff > window\<close>; a comparison with \<open>NaN\<close> is false.\<close>

definition exceeds_window :: "int \<Rightarrow> int option \<Rightarrow> bool" where
  "exceeds_window timeDiff window = (case window of None \<Rightarrow> False | Some w \<Rightarrow> timeDiff > w)"

text \<open>
  The signed payload \<open>METHOD:PATH:BODY:TIMESTAMP\<close>; the body is
  \<open>request.body ? JSON.stringify(request.body) : ''\<close>, with \<open>stringify\<close> for
  \<open>JSON.stringify\<close>.
\<close>

definition signed_payload :: "(json \<Rightarrow> string) \<Rightarrow> request \<Rightarrow> string \<Rightarrow> string" where
  "signed_payload stringify req timestamp =
     (let body =
            (case req_body req of
               None \<Rightarrow> []
             | Some b \<Rightarrow> if json_truthy b then stringify b else [])
      in req_method req @ '':'' @ req_url req @ '':'' @ body @ '':'' @ timestamp)"

text \<open>
  \<open>verifyAgentSignature\<close>. Parameters: \<open>verifyAsync\<close> is Ed25519 verification of the
  library (signature, message, public key), which returns a boolean or throws (\<open>Inl\<close>);
  \<open>window\<close> is the configured window; \<open>nowMs\<close> is \<open>Date.now()\<close>.
\<close>

definition verifyAgentSignature ::
  "(bytes \<Rightarrow> bytes \<Rightarrow> bytes \<Rightarrow> string + bool) \<Rightarrow> (json \<Rightarrow> string) \<Rightarrow> int option
     \<Rightarrow> Agent list \<Rightarrow> int \<Rightarrow> request \<Rightarrow> auth_result" where
  "verifyAgentSignature verifyAsync stringify window agents nowMs req =
     (if header_missing (x_agent_id req) \<or> header_missing (x_timestamp req)
           \<or> header_missing (x_signature req)
      then Rejected 401 ''Unauthorized''
      else
        let aid = the (x_agent_id req);
            timestamp = the (x_timestamp req);
            signature = the (x_signature req);
            now = nowMs div 1000
        in case parseInt10 timestamp of
             None \<Rightarrow> Rejected 401 ''Invalid timestamp''
           | Some requestTime \<Rightarrow>
               let timeDiff = \<bar>now - requestTime\<bar> in
               if exceeds_window timeDiff window then Rejected 401 ''Timestamp expired''
               else
                 (case findById agents aid of
                    None \<Rightarrow> Rejected 401 ''Agent not found''
                  | Some agent \<Rightarrow>
                      if a_status agent \<noteq> agent_active then Rejected 403 ''Agent not active''
                      else
                        (case verifyAsync (hexToBytes signature)
                                  (signed_payload stringify req timestamp)
                                  (hexToBytes (a_publicKey agent)) of
                           Inl err \<Rightarrow> Rejected 500 ''Verification error''
                         | Inr ok \<Rightarrow>
                             if \<not> ok then Rejected 401 ''Invalid signature''
                             else Authenticated agent)))"

text \<open>
  A stand-in for the signature scheme, used to run the model on concrete requests: the
  signature of a message under a key is the key followed by the message.
\<close>

definition sample_verifyAsync :: "bytes \<Rightarrow> bytes \<Rightarrow> bytes \<Rightarrow> string + bool" where
  "sample_verifyAsync sig msg pk = Inr (sig = pk @ msg)"

text \<open>A signed request of an active agent, used to run the authenticator.\<close>

definition sample_agent :: Agent where
  "sample_agent = \<lparr>a_agentId = ''A'', a_publicKey = ''61'', a_status = agent_active\<rparr>"

definition sample_request :: "string \<Rightarrow> request" where
  "sample_request timestamp =
     \<lparr>req_method = ''POST'', req_url = ''/api/events'', req_body = None,
      x_agent_id = Some ''A'', x_timestamp = Some timestamp,
      x_signature = Some (bytesToHex (''a'' @ ''POST:/api/events::'' @ timestamp))\<rparr>"

section \<open>Signed events (crypto package: signing.ts, canonical.ts, verification.ts)\<close>

text \<open>
  \<open>UnsignedEvent\<close> and \<open>SignedEvent\<close>. An absent \<open>correlation_id\<close> is \<open>None\<close>; a
  \<open>prev_hash\<close> of \<open>null\<close> is \<open>None\<close>.
\<close>

record UnsignedEvent =
  e_agent_id :: string
  e_event_type :: string
  e_timestamp :: string
  e_prev_hash :: "string option"
  e_payload :: json
  e_correlation_id :: "string option"

record SignedEvent = UnsignedEvent +
  e_hash :: string
  e_signature :: string

text \<open>\<open>prepareForSigning\<close>: the event without its \<open>hash\<close> and \<open>signature\<close>.\<close>

definition prepareForSigning :: "SignedEvent \<Rightarrow> UnsignedEvent" where
  "prepareForSigning event =
     \<lparr>e_agent_id = e_agent_id event, e_event_type = e_event_type event,
      e_timestamp = e_timestamp event, e_prev_hash = e_prev_hash event,
      e_payload = e_payload event, e_correlation_id = e_correlation_id event\<rparr>"

text \<open>
  The three library functions the package builds on are parameters, gathered in one
  record: \<open>canonicalize\<close> (RFC 8785 serialisation, package json-canonicalize),
  \<open>sha256\<close> (hexadecimal SHA-256 digest) and \<open>verifyAsync\<close> (Ed25519 verification,
  which returns a boolean or throws).
\<close>

record crypto =
  canonicalize :: "UnsignedEvent \<Rightarrow> string"
  sha256 :: "string \<Rightarrow> string"
  verifyAsync :: "bytes \<Rightarrow> bytes \<Rightarrow> bytes \<Rightarrow> string + bool"

datatype verify_error =
    HashMismatch string string
  | InvalidSignature
  | VerificationError string

record VerificationResult =
  vr_valid :: bool
  vr_errors :: "verify_error list"

text \<open>
  \<open>verifyEvent\<close>. \<open>HashMismatch expected got\<close> carries the event's hash and the
  recomputed one; a throw inside the \<open>try\<close> block adds \<open>VerificationError\<close> to the
  errors collected before it.
\<close>

definition verifyEvent :: "crypto \<Rightarrow> SignedEvent \<Rightarrow> string \<Rightarrow> VerificationResult" where
  "verifyEvent lib event publicKeyHex =
     (let unsignedEvent = prepareForSigning event;
          canonicalJSON = canonicalize lib unsignedEvent;
          computedHash = sha256 lib canonicalJSON;
          errors1 =
            (if computedHash \<noteq> e_hash event
             then [HashMismatch (e_hash event) computedHash] else []);
          errors2 =
            (case verifyAsync lib (hexToBytes (e_signature event)) canonicalJSON
                    (hexToBytes publicKeyHex) of
               Inl msg \<Rightarrow> errors1 @ [VerificationError msg]
             | Inr signatureValid \<Rightarrow>
                 if \<not> signatureValid then errors1 @ [InvalidSignature] else errors1)
      in \<lparr>vr_valid = (errors2 = []), vr_errors = errors2\<rparr>)"

datatype chain_error =
    FirstPrevHashNotNull
  | EventInvalid nat "verify_error list"
  | PrevHashMismatch nat string "string option"

record ChainVerificationResult =
  cv_valid :: bool
  cv_errors :: "chain_error list"
  firstInvalidEvent :: "nat option"
  totalEvents :: nat

text \<open>\<open>if (firstInvalidEvent === undefined) firstInvalidEvent = i\<close>.\<close>

definition set_first :: "nat option \<Rightarrow> nat \<Rightarrow> nat option" where
  "set_first first i = (case first of None \<Rightarrow> Some i | Some j \<Rightarrow> Some j)"

text \<open>
  One pass of the \<open>for\<close> loop of \<open>verifyEventChain\<close>, at index \<open>i\<close>, on the errors
  and first invalid index accumulated so far.
\<close>

definition chain_step ::
  "crypto \<Rightarrow> SignedEvent list \<Rightarrow> string \<Rightarrow> nat \<Rightarrow> chain_error list \<times> nat option
     \<Rightarrow> chain_error list \<times> nat option" where
  "chain_step lib events publicKeyHex i acc =
     (let event = events ! i;
          result = verifyEvent lib event publicKeyHex;
          acc1 =
            (if \<not> vr_valid result
             then (fst acc @ [EventInvalid i (vr_errors result)], set_first (snd acc) i)
             else acc)
      in if i > 0
         then (let previousHash = e_hash (events ! (i - 1)) in
               if e_prev_hash event \<noteq> Some previousHash
               then (fst acc1 @ [PrevHashMismatch i previousHash (e_prev_hash event)],
                     set_first (snd acc1) i)
               else acc1)
         else acc1)"

function chain_loop ::
  "crypto \<Rightarrow> SignedEvent list \<Rightarrow> string \<Rightarrow> nat \<Rightarrow> chain_error list \<times> nat option
     \<Rightarrow> chain_error list \<times> nat option" where
  "chain_loop lib events publicKeyHex i acc =
     (if i < length events
      then chain_loop lib events publicKeyHex (i + 1)
             (chain_step lib events publicKeyHex i acc)
      else acc)"
  by pat_completeness auto
termination
  by (relation "measure (\<lambda>(lib, events, publicKeyHex, i, acc). length events - i)") auto

definition verifyEventChain ::
  "crypto \<Rightarrow> SignedEvent list \<Rightarrow> string \<Rightarrow> ChainVerificationResult" where
  "verifyEventChain lib events publicKeyHex =
     (if length events = 0
      then \<lparr>cv_valid = True, cv_errors = [], firstInvalidEvent = None, totalEvents = 0\<rparr>
      else
        let acc0 =
              (if e_prev_hash (events ! 0) \<noteq> None
               then ([FirstPrevHashNotNull], Some 0) else ([], None));
            acc = chain_loop lib events publicKeyHex 0 acc0
        in \<lparr>cv_valid = (fst acc = []), cv_errors = fst acc,
            firstInvalidEvent = snd acc, totalEvents = length events\<rparr>)"

section \<open>Event ledger (repositories/event.repository.ts, services/event.service.ts)\<close>

text \<open>A row of the \<open>events\<close> table; the table is the list of its rows.\<close>

record Event =
  ev_id :: int
  ev_agentId :: string
  ev_eventType :: string
  ev_timestamp :: int
  ev_prevHash :: "string option"
  ev_hash :: string
  ev_payload :: json
  ev_signature :: string
  ev_correlationId :: "string option"

text \<open>
  \<open>getAgentChain\<close>: the agent's rows ordered by \<open>(timestamp, id)\<close>;
  \<open>getLastEventForAgent\<close>: the first row in the descending order, if any.
\<close>

definition getAgentChain :: "Event list \<Rightarrow> string \<Rightarrow> Event list" where
  "getAgentChain tbl aid =
     sort_key (\<lambda>e. (ev_timestamp e, ev_id e)) (filter (\<lambda>e. ev_agentId e = aid) tbl)"

definition getLastEventForAgent :: "Event list \<Rightarrow> string \<Rightarrow> Event option" where
  "getLastEventForAgent tbl aid =
     (case rev (sort_key (\<lambda>e. (ev_timestamp e, ev_id e))
                  (filter (\<lambda>e. ev_agentId e = aid) tbl)) of
        [] \<Rightarrow> None
      | e # rest \<Rightarrow> Some e)"

datatype append_error =
    AgentNotFound string
  | AgentNotActive agent_status
  | EventVerificationFailed "verify_error list"
  | HashChainBroken "string option" "string option"
  | DuplicateHash string

text \<open>
  \<open>EventRepository.append\<close>: the insert gives the row the next serial identifier and
  fails on a hash that is already stored (the column is unique).
\<close>

definition next_id :: "Event list \<Rightarrow> int" where
  "next_id tbl = fold max (map ev_id tbl) 0 + 1"

definition append_row :: "Event list \<Rightarrow> Event \<Rightarrow> (append_error + Event) \<times> Event list" where
  "append_row tbl newEvent =
     (if \<exists>e \<in> set tbl. ev_hash e = ev_hash newEvent
      then (Inl (DuplicateHash (ev_hash newEvent)), tbl)
      else (let row = newEvent\<lparr>ev_id := next_id tbl\<rparr> in (Inr row, tbl @ [row])))"

record AppendEventRequest =
  rq_agentId :: string
  rq_eventType :: string
  rq_timestamp :: "int option"
  rq_payload :: json
  rq_correlationId :: "string option"
  rq_hash :: string
  rq_signature :: string

text \<open>
  The signed event \<open>appendEvent\<close> rebuilds for verification: \<open>prev_hash\<close> is the
  server's, the timestamp is the request's or else the clock's; \<open>toISOString\<close> is the
  method of \<open>Date\<close>.
\<close>

definition rebuild_signed ::
  "(int \<Rightarrow> string) \<Rightarrow> AppendEventRequest \<Rightarrow> string option \<Rightarrow> int \<Rightarrow> SignedEvent" where
  "rebuild_signed toISOString req prevHash now =
     \<lparr>e_agent_id = rq_agentId req,
      e_event_type = rq_eventType req,
      e_timestamp = toISOString (case rq_timestamp req of Some t \<Rightarrow> t | None \<Rightarrow> now),
      e_prev_hash = prevHash,
      e_payload = rq_payload req,
      e_correlation_id = rq_correlationId req,
      e_hash = rq_hash req,
      e_signature = rq_signature req\<rparr>"

text \<open>
  \<open>appendEvent\<close>, returning the outcome and the table afterwards. \<open>now1\<close> and \<open>now2\<close>
  are the two readings of the clock (\<open>new Date()\<close> in the signed event and in the row).
  A timestamp in the request is a valid date.
\<close>

definition appendEvent ::
  "crypto \<Rightarrow> (int \<Rightarrow> string) \<Rightarrow> Agent list \<Rightarrow> Event list \<Rightarrow> int \<Rightarrow> int
     \<Rightarrow> AppendEventRequest \<Rightarrow> (append_error + Event) \<times> Event list" where
  "appendEvent lib toISOString agents tbl now1 now2 req =
     (case findById agents (rq_agentId req) of
        None \<Rightarrow> (Inl (AgentNotFound (rq_agentId req)), tbl)
      | Some agent \<Rightarrow>
          if a_status agent \<noteq> agent_active
          then (Inl (AgentNotActive (a_status agent)), tbl)
          else
            let lastEvent = getLastEventForAgent tbl (rq_agentId req);
                prevHash = (case lastEvent of Some l \<Rightarrow> Some (ev_hash l) | None \<Rightarrow> None);
                signedEvent = rebuild_signed toISOString req prevHash now1;
                verification = verifyEvent lib signedEvent (a_publicKey agent)
            in if \<not> vr_valid verification
               then (Inl (EventVerificationFailed (vr_errors verification)), tbl)
               else if e_prev_hash signedEvent \<noteq> prevHash
               then (Inl (HashChainBroken prevHash (e_prev_hash signedEvent)), tbl)
               else
                 append_row tbl
                   \<lparr>ev_id = 0,
                    ev_agentId = rq_agentId req,
                    ev_eventType = rq_eventType req,
                    ev_timestamp = (case rq_timestamp req of Some t \<Rightarrow> t | None \<Rightarrow> now2),
                    ev_prevHash = prevHash,
                    ev_hash = rq_hash req,
                    ev_payload = rq_payload req,
                    ev_signature = rq_signature req,
                    ev_correlationId = rq_correlationId req\<rparr>)"

text \<open>
  \<open>verifyAgentChain\<close>: the rows become signed events (\<open>correlationId || undefined\<close>
  drops an empty correlation id) and go to \<open>verifyEventChain\<close>.
\<close>

definition row_to_signed :: "(int \<Rightarrow> string) \<Rightarrow> Event \<Rightarrow> SignedEvent" where
  "row_to_signed toISOString e =
     \<lparr>e_agent_id = ev_agentId e,
      e_event_type = ev_eventType e,
      e_timestamp = toISOString (ev_timestamp e),
      e_prev_hash = ev_prevHash e,
      e_payload = ev_payload e,
      e_correlation_id =
        (case ev_correlationId e of None \<Rightarrow> None | Some c \<Rightarrow> if c = [] then None else Some c),
      e_hash = ev_hash e,
      e_signature = ev_signature e\<rparr>"

definition verifyAgentChain ::
  "crypto \<Rightarrow> (int \<Rightarrow> string) \<Rightarrow> Agent list \<Rightarrow> Event list \<Rightarrow> string
     \<Rightarrow> append_error + ChainVerificationResult" where
  "verifyAgentChain lib toISOString agents tbl aid =
     (case findById agents aid of
        None \<Rightarrow> Inl (AgentNotFound aid)
      | Some agent \<Rightarrow>
          let events = getAgentChain tbl aid in
          if length events = 0
          then Inr \<lparr>cv_valid = True, cv_errors = [], firstInvalidEvent = None, totalEvents = 0\<rparr>
          else Inr (verifyEventChain lib (map (row_to_signed toISOString) events)
                      (a_publicKey agent)))"

text \<open>
  The checks of chain verification, stated for one index: the event's hash is the
  digest of its canonical unsigned form and its signature verifies under the key; the
  first event has no \<open>prev_hash\<close> and a later one carries its predecessor's hash.
\<close>

definition event_ok :: "crypto \<Rightarrow> string \<Rightarrow> SignedEvent \<Rightarrow> bool" where
  "event_ok lib publicKeyHex e =
     (sha256 lib (canonicalize lib (prepareForSigning e)) = e_hash e
      \<and> verifyAsync lib (hexToBytes (e_signature e)) (canonicalize lib (prepareForSigning e))
            (hexToBytes publicKeyHex) = Inr True)"

definition link_ok :: "SignedEvent list \<Rightarrow> nat \<Rightarrow> bool" where
  "link_ok events i =
     (if i = 0 then e_prev_hash (events ! 0) = None
      else e_prev_hash (events ! i) = Some (e_hash (events ! (i - 1))))"

text \<open>The errors the loop adds at index \<open>i\<close>, in the order it adds them.\<close>

definition index_errors ::
  "crypto \<Rightarrow> SignedEvent list \<Rightarrow> string \<Rightarrow> nat \<Rightarrow> chain_error list" where
  "index_errors lib events publicKeyHex i =
     (if event_ok lib publicKeyHex (events ! i) then []
      else [EventInvalid i (vr_errors (verifyEvent lib (events ! i) publicKeyHex))])
     @ (if i > 0 \<and> \<not> link_ok events i
        then [PrevHashMismatch i (e_hash (events ! (i - 1))) (e_prev_hash (events ! i))]
        else [])"

text \<open>
  The same checks stated on the rows of the table: the hash column is the digest of
  the canonical form of the row's own fields (the timestamp in ISO form, an empty
  correlation id left out) and the signature column verifies on that form under the
  key; the first row has no \<open>prev_hash\<close> and a later row carries the hash column of
  the row before it.
\<close>

definition row_ok :: "crypto \<Rightarrow> (int \<Rightarrow> string) \<Rightarrow> string \<Rightarrow> Event \<Rightarrow> bool" where
  "row_ok lib toISOString publicKeyHex e =
     (let canonicalJSON =
            canonicalize lib
              \<lparr>e_agent_id = ev_agentId e, e_event_type = ev_eventType e,
               e_timestamp = toISOString (ev_timestamp e), e_prev_hash = ev_prevHash e,
               e_payload = ev_payload e,
               e_correlation_id =
                 (if ev_correlationId e = Some [] then None else ev_correlationId e)\<rparr>
      in sha256 lib canonicalJSON = ev_hash e
         \<and> verifyAsync lib (hexToBytes (ev_signature e)) canonicalJSON
               (hexToBytes publicKeyHex) = Inr True)"

definition row_linked :: "Event list \<Rightarrow> nat \<Rightarrow> bool" where
  "row_linked rows i =
     (if i = 0 then ev_prevHash (rows ! 0) = None
      else ev_prevHash (rows ! i) = Some (ev_hash (rows ! (i - 1))))"

subsection \<open>The client's side (signing.ts, client.ts)\<close>

text \<open>
  \<open>signEvent\<close>, with \<open>signAsync\<close> for Ed25519 signing (message, private key), and
  \<open>signEventInChain\<close>, which links the event to a previous hash first.
\<close>

definition signEvent ::
  "crypto \<Rightarrow> (bytes \<Rightarrow> bytes \<Rightarrow> bytes) \<Rightarrow> UnsignedEvent \<Rightarrow> string \<Rightarrow> SignedEvent" where
  "signEvent lib signAsync event privateKeyHex =
     (let canonicalJSON = canonicalize lib event;
          hash = sha256 lib canonicalJSON;
          privateKey = hexToBytes privateKeyHex;
          signatureBytes = signAsync canonicalJSON privateKey;
          signature = bytesToHex signatureBytes
      in \<lparr>e_agent_id = e_agent_id event, e_event_type = e_event_type event,
          e_timestamp = e_timestamp event, e_prev_hash = e_prev_hash event,
          e_payload = e_payload event, e_correlation_id = e_correlation_id event,
          e_hash = hash, e_signature = signature\<rparr>)"

definition signEventInChain ::
  "crypto \<Rightarrow> (bytes \<Rightarrow> bytes \<Rightarrow> bytes) \<Rightarrow> UnsignedEvent \<Rightarrow> string option \<Rightarrow> string
     \<Rightarrow> SignedEvent" where
  "signEventInChain lib signAsync event previousHash privateKeyHex =
     signEvent lib signAsync (event\<lparr>e_prev_hash := previousHash\<rparr>) privateKeyHex"

text \<open>
  The request body \<open>TrustClient.appendEvent\<close> sends for an event at time \<open>t\<close>, signed
  over the client's own last hash \<open>lastEventHash\<close>: the body carries the hash and the
  signature, and no \<open>prev_hash\<close>.
\<close>

definition client_request ::
  "crypto \<Rightarrow> (bytes \<Rightarrow> bytes \<Rightarrow> bytes) \<Rightarrow> (int \<Rightarrow> string) \<Rightarrow> string \<Rightarrow> string \<Rightarrow> int
     \<Rightarrow> json \<Rightarrow> string option \<Rightarrow> string option \<Rightarrow> string \<Rightarrow> AppendEventRequest" where
  "client_request lib signAsync toISOString aid eventType t payload correlationId
       lastEventHash privateKeyHex =
     (let signedEvent =
            signEventInChain lib signAsync
              \<lparr>e_agent_id = aid, e_event_type = eventType, e_timestamp = toISOString t,
               e_prev_hash = None, e_payload = payload,
               e_correlation_id = correlationId\<rparr>
              lastEventHash privateKeyHex
      in \<lparr>rq_agentId = aid, rq_eventType = eventType, rq_timestamp = Some t,
          rq_payload = payload, rq_correlationId = correlationId,
          rq_hash = e_hash signedEvent, rq_signature = e_signature signedEvent\<rparr>)"

subsection \<open>Stand-ins for the libraries\<close>

text \<open>
  Used to run the model on concrete events: the canonical form lists the fields that
  matter for linkage, the digest is the text itself, and a signature is the key
  followed by the message (so the private and the public key coincide).
\<close>

definition sample_canonicalize :: "UnsignedEvent \<Rightarrow> string" where
  "sample_canonicalize e =
     e_agent_id e @ ''|'' @ e_event_type e @ ''|'' @ e_timestamp e @ ''|''
       @ (case e_prev_hash e of None \<Rightarrow> ''null'' | Some h \<Rightarrow> h)"

definition sample_signAsync :: "bytes \<Rightarrow> bytes \<Rightarrow> bytes" where
  "sample_signAsync msg sk = sk @ msg"

definition sample_crypto :: crypto where
  "sample_crypto =
     \<lparr>canonicalize = sample_canonicalize, sha256 = (\<lambda>s. s),
      verifyAsync = sample_verifyAsync\<rparr>"

definition sample_toISOString :: "int \<Rightarrow> string" where
  "sample_toISOString t = (if t = 1 then ''T1'' else if t = 2 then ''T2'' else ''T0'')"

definition sample_unsigned :: "string \<Rightarrow> UnsignedEvent" where
  "sample_unsigned timestamp =
     \<lparr>e_agent_id = ''A'', e_event_type = ''input_received'', e_timestamp = timestamp,
      e_prev_hash = None, e_payload = JObj [(''i'', JNum 1)], e_correlation_id = None\<rparr>"

definition sample_chain :: "SignedEvent list" where
  "sample_chain =
     (let e1 = signEventInChain sample_crypto sample_signAsync (sample_unsigned ''T1'')
                 None ''61'';
          e2 = signEventInChain sample_crypto sample_signAsync (sample_unsigned ''T2'')
                 (Some (e_hash e1)) ''61''
      in [e1, e2])"

definition broken_chain :: "SignedEvent list" where
  "broken_chain =
     (let e1 = signEventInChain sample_crypto sample_signAsync (sample_unsigned ''T1'')
                 None ''61'';
          e2 = signEventInChain sample_crypto sample_signAsync (sample_unsigned ''T2'')
                 (Some ''wrong-hash'') ''61''
      in [e1, e2])"

text \<open>
  A stored ledger: the row \<open>appendEvent\<close> writes for a signed event (identifier and
  timestamp given), the two events of \<open>sample_chain\<close> stored out of order around a
  row of another agent, and the same ledger with the event type of the later row
  altered after it was stored.
\<close>

definition stored_event :: "int \<Rightarrow> int \<Rightarrow> SignedEvent \<Rightarrow> Event" where
  "stored_event ident t event =
     \<lparr>ev_id = ident, ev_agentId = e_agent_id event, ev_eventType = e_event_type event,
      ev_timestamp = t, ev_prevHash = e_prev_hash event, ev_hash = e_hash event,
      ev_payload = e_payload event, ev_signature = e_signature event,
      ev_correlationId = e_correlation_id event\<rparr>"

definition sample_ledger :: "Event list" where
  "sample_ledger =
     [stored_event 3 2 (sample_chain ! 1),
      (stored_event 2 1 (sample_chain ! 0))\<lparr>ev_agentId := ''B''\<rparr>,
      stored_event 1 1 (sample_chain ! 0)]"

definition altered_ledger :: "Event list" where
  "altered_ledger =
     [(stored_event 3 2 (sample_chain ! 1))\<lparr>ev_eventType := ''decision_made''\<rparr>,
      (stored_event 2 1 (sample_chain ! 0))\<lparr>ev_agentId := ''B''\<rparr>,
      stored_event 1 1 (sample_chain ! 0)]"

text \<open>
  The unsigned event both sides canonicalize for a request at time \<open>t\<close>, up to the
  \<open>prev_hash\<close> each side puts in.
\<close>

definition unsigned_event ::
  "(int \<Rightarrow> string) \<Rightarrow> string \<Rightarrow> string \<Rightarrow> int \<Rightarrow> json \<Rightarrow> string option \<Rightarrow> string option
     \<Rightarrow> UnsignedEvent" where
  "unsigned_event toISOString aid eventType t payload correlationId prevHash =
     \<lparr>e_agent_id = aid, e_event_type = eventType, e_timestamp = toISOString t,
      e_prev_hash = prevHash, e_payload = payload, e_correlation_id = correlationId\<rparr>"

text \<open>
  A request signed by the client of \<open>sample_agent\<close> over the previous hash \<open>ff\<close>,
  which no stored event has.
\<close>

definition stale_request :: AppendEventRequest where
  "stale_request =
     client_request sample_crypto sample_signAsync sample_toISOString ''A''
       ''input_received'' 1 (JObj [(''i'', JNum 1)]) None (Some ''ff'') ''61''"

section \<open>Event queries (api/events.ts, repositories/event.repository.ts)\<close>




















subsection \<open>A stand-in for the database\<close>








section \<open>Keystore (crypto package: encryptKeystore, decryptKeystore)\<close>

record kdfparams =
  kp_salt :: string
  kp_n :: nat
  kp_r :: nat
  kp_p :: nat
  kp_dklen :: nat

record keystore_crypto =
  kc_cipher :: string
  kc_ciphertext :: string
  kc_kdf :: string
  kc_kdfparams :: kdfparams
  kc_mac :: string

record EncryptedKeystore =
  ks_version :: string
  ks_crypto :: keystore_crypto
  ks_id :: string
  ks_agent_id :: string

text \<open>
  The functions of \<open>node:crypto\<close> the keystore calls are parameters: \<open>scrypt\<close>
  (password, salt, key length, options), AES-256-GCM encryption (key, iv, plaintext,
  giving ciphertext and authentication tag) and decryption (key, iv, ciphertext, tag;
  \<open>None\<close> when the cipher throws: a key or tag of the wrong length, or data that
  does not authenticate), and the hexadecimal SHA-256 digest of bytes.
\<close>

record scrypt_options =
  sc_cost :: nat
  sc_blockSize :: nat
  sc_parallelization :: nat

record keystore_lib =
  scrypt :: "string \<Rightarrow> bytes \<Rightarrow> nat \<Rightarrow> scrypt_options \<Rightarrow> bytes"
  gcm_encrypt :: "bytes \<Rightarrow> bytes \<Rightarrow> bytes \<Rightarrow> bytes \<times> bytes"
  gcm_decrypt :: "bytes \<Rightarrow> bytes \<Rightarrow> bytes \<Rightarrow> bytes \<Rightarrow> bytes option"
  sha256_hex :: "bytes \<Rightarrow> string"

text \<open>
  \<open>scryptAsync(password, salt, keylen)\<close>: the call passes no options, so the runtime
  uses its defaults (cost 16384, block size 8, parallelization 1).
\<close>

definition node_scrypt_defaults :: scrypt_options where
  "node_scrypt_defaults = \<lparr>sc_cost = 16384, sc_blockSize = 8, sc_parallelization = 1\<rparr>"

definition scryptAsync :: "keystore_lib \<Rightarrow> string \<Rightarrow> bytes \<Rightarrow> nat \<Rightarrow> bytes" where
  "scryptAsync lib password salt keylen = scrypt lib password salt keylen node_scrypt_defaults"

text \<open>
  \<open>Buffer.subarray(start, end)\<close>: a negative index counts from the end, and both are
  clamped to the buffer.
\<close>

definition clamp_index :: "nat \<Rightarrow> int \<Rightarrow> nat" where
  "clamp_index len i = (if i < 0 then nat (max (int len + i) 0) else min (nat i) len)"

definition subarray :: "bytes \<Rightarrow> int \<Rightarrow> int \<Rightarrow> bytes" where
  "subarray b start stop =
     (let s = clamp_index (length b) start; e = clamp_index (length b) stop
      in take (e - s) (drop s b))"

text \<open>
  \<open>encryptKeystore\<close>; \<open>salt\<close>, \<open>iv\<close> and \<open>rid\<close> are the three results of
  \<open>randomBytes\<close> (32, 16 and 16 bytes).
\<close>

definition encryptKeystore ::
  "keystore_lib \<Rightarrow> bytes \<Rightarrow> bytes \<Rightarrow> bytes \<Rightarrow> string \<Rightarrow> string \<Rightarrow> string \<Rightarrow> EncryptedKeystore" where
  "encryptKeystore lib salt iv rid privateKeyHex agentId password =
     (let derivedKey = scryptAsync lib password salt 32;
          encrypted = gcm_encrypt lib derivedKey iv privateKeyHex;
          ciphertext = fst encrypted;
          authTag = snd encrypted;
          combined = ciphertext @ authTag @ iv;
          mac = sha256_hex lib (subarray derivedKey 16 32 @ combined)
      in \<lparr>ks_version = ''1'',
          ks_crypto =
            \<lparr>kc_cipher = ''aes-256-gcm'',
             kc_ciphertext = bytesToHex combined,
             kc_kdf = ''scrypt'',
             kc_kdfparams =
               \<lparr>kp_salt = bytesToHex salt, kp_n = 262144, kp_r = 8, kp_p = 1, kp_dklen = 32\<rparr>,
             kc_mac = mac\<rparr>,
          ks_id = bytesToHex rid,
          ks_agent_id = agentId\<rparr>)"

datatype keystore_error = UnsupportedVersion string | MacMismatch | AuthenticationFailed

text \<open>\<open>decryptKeystore\<close>; each \<open>throw\<close> is an error value.\<close>

definition decryptKeystore ::
  "keystore_lib \<Rightarrow> EncryptedKeystore \<Rightarrow> string \<Rightarrow> keystore_error + string" where
  "decryptKeystore lib keystore password =
     (if ks_version keystore \<noteq> ''1'' then Inl (UnsupportedVersion (ks_version keystore))
      else
        let crypto = ks_crypto keystore;
            salt = hexToBytes (kp_salt (kc_kdfparams crypto));
            derivedKey = scryptAsync lib password salt (kp_dklen (kc_kdfparams crypto));
            combined = hexToBytes (kc_ciphertext crypto);
            computedMac = sha256_hex lib (subarray derivedKey 16 32 @ combined)
        in if computedMac \<noteq> kc_mac crypto then Inl MacMismatch
           else
             let n = int (length combined);
                 iv = subarray combined (n - 16) n;
                 authTag = subarray combined (n - 32) (n - 16);
                 ciphertext = subarray combined 0 (n - 32)
             in case gcm_decrypt lib derivedKey iv ciphertext authTag of
                  None \<Rightarrow> Inl AuthenticationFailed
                | Some privateKeyHex \<Rightarrow> Inr privateKeyHex)"

text \<open>A keystore with other recorded cost parameters, or another stored text.\<close>

definition with_cost :: "EncryptedKeystore \<Rightarrow> nat \<Rightarrow> nat \<Rightarrow> nat \<Rightarrow> EncryptedKeystore" where
  "with_cost keystore n r p =
     keystore\<lparr>ks_crypto := (ks_crypto keystore)
       \<lparr>kc_kdfparams := (kc_kdfparams (ks_crypto keystore))\<lparr>kp_n := n, kp_r := r, kp_p := p\<rparr>\<rparr>\<rparr>"

definition with_mac :: "EncryptedKeystore \<Rightarrow> string \<Rightarrow> EncryptedKeystore" where
  "with_mac keystore mac = keystore\<lparr>ks_crypto := (ks_crypto keystore)\<lparr>kc_mac := mac\<rparr>\<rparr>"

definition with_ciphertext :: "EncryptedKeystore \<Rightarrow> string \<Rightarrow> EncryptedKeystore" where
  "with_ciphertext keystore text =
     keystore\<lparr>ks_crypto := (ks_crypto keystore)\<lparr>kc_ciphertext := text\<rparr>\<rparr>"

text \<open>
  Stand-ins for the library, to run the keystore on concrete values: the derived key
  is sixteen bytes of the salt followed by sixteen bytes of the password and a byte of
  the cost (both padded), cut to the key length; the cipher leaves the text as it is and
  tags it with the first sixteen bytes of key, iv and text; the digest is the bytes
  themselves.
\<close>

definition sample_scrypt :: "string \<Rightarrow> bytes \<Rightarrow> nat \<Rightarrow> scrypt_options \<Rightarrow> bytes" where
  "sample_scrypt password salt keylen opts =
     take keylen
       (take 16 (salt @ replicate 16 (CHR ''-''))
        @ take 16 (password @ [char_of (sc_cost opts div 1024)] @ replicate 16 (CHR ''-'')))"

definition sample_tag :: "bytes \<Rightarrow> bytes \<Rightarrow> bytes \<Rightarrow> bytes" where
  "sample_tag key iv msg = take 16 (key @ iv @ msg @ replicate 16 (CHR ''0''))"

definition sample_keystore_lib :: keystore_lib where
  "sample_keystore_lib =
     \<lparr>scrypt = sample_scrypt,
      gcm_encrypt = (\<lambda>key iv msg. (msg, sample_tag key iv msg)),
      gcm_decrypt =
        (\<lambda>key iv ct tag.
           if length key = 32 \<and> tag = sample_tag key iv ct then Some ct else None),
      sha256_hex = (\<lambda>b. b)\<rparr>"

text \<open>The digest does not collide on two given inputs.\<close>

definition no_collision :: "keystore_lib \<Rightarrow> bytes \<Rightarrow> bytes \<Rightarrow> bool" where
  "no_collision lib a b = (sha256_hex lib a = sha256_hex lib b \<longrightarrow> a = b)"

definition sample_salt :: bytes where
  "sample_salt = ''0123456789abcdef0123456789abcdef''"

definition sample_iv :: bytes where
  "sample_iv = ''fedcba9876543210''"

section \<open>Properties of the reputation engine\<close>

subsection \<open>Rounding of the columns\<close>

lemma floor_bounds: "of_int \<lfloor>z\<rfloor> \<le> (z::rat) \<and> z < of_int \<lfloor>z\<rfloor> + 1"
  using floor_correct [of z] by simp

lemma floor_half:
  "of_int \<lfloor>y + 1 / 2\<rfloor> - (y::rat) \<le> 1 / 2 \<and> - (1 / 2) < of_int \<lfloor>y + 1 / 2\<rfloor> - y"
  using floor_bounds [of "y + 1 / 2"] by linarith

lemma round_half_away_error: "\<bar>of_int (round_half_away x) - x\<bar> \<le> 1 / 2"
proof (cases "0 \<le> x")
  case True
  then have "round_half_away x = \<lfloor>x + 1 / 2\<rfloor>" by (simp add: round_half_away_def)
  then show ?thesis using floor_half [of x] by linarith
next
  case False
  then have "round_half_away x = - \<lfloor>- x + 1 / 2\<rfloor>" by (simp add: round_half_away_def)
  then have "(of_int (round_half_away x) :: rat) = - of_int \<lfloor>- x + 1 / 2\<rfloor>"
    by (simp only: of_int_minus)
  then show ?thesis using floor_half [of "- x"] by linarith
qed

lemma floor_of_int_half: "\<lfloor>(of_int k :: rat) + 1 / 2\<rfloor> = k"
  by (rule floor_unique) simp_all

lemma round_half_away_of_int: "round_half_away (of_int k) = k"
  using floor_of_int_half [of k] floor_of_int_half [of "- k"]
  by (simp add: round_half_away_def)

lemma round_half_away_range:
  assumes "0 \<le> x" and "x \<le> of_int m"
  shows "0 \<le> round_half_away x \<and> round_half_away x \<le> m"
proof -
  have "round_half_away x = \<lfloor>x + 1 / 2\<rfloor>" using assms(1) by (simp add: round_half_away_def)
  moreover have "0 \<le> \<lfloor>x + 1 / 2\<rfloor>" using assms(1) by simp
  moreover have "\<lfloor>x + 1 / 2\<rfloor> \<le> m"
  proof -
    have "x + 1 / 2 < of_int (m + 1)" using assms(2) by simp
    then have "\<lfloor>x + 1 / 2\<rfloor> < m + 1" by (simp only: floor_less_iff)
    then show ?thesis by simp
  qed
  ultimately show ?thesis by simp
qed

lemma numeric_column_exact:
  assumes "decimals scale x" and "\<bar>x\<bar> * 10 ^ scale < 10 ^ precision"
  shows "numeric_column precision scale x = Some x"
proof -
  let ?k = "\<lfloor>x * 10 ^ scale\<rfloor>"
  have k: "x * 10 ^ scale = of_int ?k" using assms(1) unfolding decimals_def by (rule sym)
  have r: "round_half_away (x * 10 ^ scale) = ?k"
    using round_half_away_of_int [of ?k] k by simp
  have "\<bar>x * 10 ^ scale\<bar> < 10 ^ precision" using assms(2) by (simp add: abs_mult)
  then have "\<bar>(of_int ?k :: rat)\<bar> < of_int (10 ^ precision)" using k by simp
  then have "(of_int \<bar>?k\<bar> :: rat) < of_int (10 ^ precision)" by simp
  then have small: "\<bar>?k\<bar> < 10 ^ precision" by (simp only: of_int_less_iff)
  have "x * 10 ^ scale / 10 ^ scale = of_int ?k / 10 ^ scale" using k by (rule arg_cong)
  then have "(of_int ?k :: rat) / 10 ^ scale = x" by simp
  then show ?thesis using r small by (simp add: numeric_column_def Let_def)
qed

lemma numeric_column_range:
  assumes "0 \<le> x" and "x \<le> of_nat m" and "m * 10 ^ scale < 10 ^ precision"
  shows "\<exists>y. numeric_column precision scale x = Some y \<and> 0 \<le> y \<and> y \<le> of_nat m
           \<and> decimals scale y \<and> \<bar>y - x\<bar> \<le> 1 / (2 * 10 ^ scale)"
proof -
  let ?p = "(10 :: rat) ^ scale"
  let ?k = "round_half_away (x * ?p)"
  have pos: "0 < ?p" by simp
  have lo: "0 \<le> x * ?p" using assms(1) by simp
  have hi: "x * ?p \<le> of_int (int (m * 10 ^ scale))" using assms(2) pos by simp
  have rng: "0 \<le> ?k \<and> ?k \<le> int (m * 10 ^ scale)"
    using round_half_away_range [OF lo hi] .
  have "int (m * 10 ^ scale) < int (10 ^ precision)"
    using assms(3) by (simp only: of_nat_less_iff)
  then have "\<bar>?k\<bar> < 10 ^ precision" using rng by simp
  then have col: "numeric_column precision scale x = Some (of_int ?k / ?p)"
    by (simp add: numeric_column_def Let_def)
  have y0: "0 \<le> (of_int ?k :: rat) / ?p" using rng by simp
  have "(of_int ?k :: rat) \<le> of_int (int (m * 10 ^ scale))" using rng by (simp only: of_int_le_iff)
  then have "(of_int ?k :: rat) \<le> of_nat m * ?p" by simp
  then have y1: "(of_int ?k :: rat) / ?p \<le> of_nat m" using pos by (simp add: field_simps)
  have dec: "decimals scale (of_int ?k / ?p)" by (simp add: decimals_def)
  have h: "\<bar>of_int ?k - x * ?p\<bar> \<le> 1 / 2" by (rule round_half_away_error)
  have eq: "of_int ?k / ?p - x = (of_int ?k - x * ?p) / ?p" by (simp add: field_simps)
  have e1: "\<bar>of_int ?k - x * ?p\<bar> / ?p \<le> (1 / 2) / ?p"
    by (rule divide_right_mono [OF h]) simp
  have e2: "\<bar>(of_int ?k - x * ?p) / ?p\<bar> = \<bar>of_int ?k - x * ?p\<bar> / ?p"
    by (simp add: abs_divide)
  have "\<bar>of_int ?k / ?p - x\<bar> = \<bar>of_int ?k - x * ?p\<bar> / ?p"
    using eq e2 by (simp only:)
  also have "\<dots> \<le> (1 / 2) / ?p" by (rule e1)
  also have "\<dots> = 1 / (2 * ?p)" by simp
  finally have err: "\<bar>of_int ?k / ?p - x\<bar> \<le> 1 / (2 * ?p)" .
  show ?thesis using col y0 y1 dec err by blast
qed

lemma integer_column_Some:
  "- 2147483648 \<le> n \<Longrightarrow> n \<le> 2147483647 \<Longrightarrow> integer_column n = Some n"
  by (simp add: integer_column_def)

lemma decimals_of_int_div: "decimals scale (of_int k / 10 ^ scale)"
  by (simp add: decimals_def)

lemma decimals_iff: "decimals scale x = (\<exists>k. x = of_int k / 10 ^ scale)"
proof
  assume "decimals scale x"
  then have "x * 10 ^ scale = of_int \<lfloor>x * 10 ^ scale\<rfloor>"
    unfolding decimals_def by (rule sym)
  then have "x * 10 ^ scale / 10 ^ scale = of_int \<lfloor>x * 10 ^ scale\<rfloor> / 10 ^ scale"
    by (rule arg_cong)
  then have "x = of_int \<lfloor>x * 10 ^ scale\<rfloor> / 10 ^ scale" by simp
  then show "\<exists>k. x = of_int k / 10 ^ scale" by blast
next
  assume "\<exists>k. x = of_int k / 10 ^ scale"
  then show "decimals scale x" using decimals_of_int_div by blast
qed

lemma decimals_add: "decimals scale a \<Longrightarrow> decimals scale b \<Longrightarrow> decimals scale (a + b)"
proof -
  assume "decimals scale a" and "decimals scale b"
  then obtain j k where "a = of_int j / 10 ^ scale" and "b = of_int k / 10 ^ scale"
    unfolding decimals_iff by blast
  then have "a + b = of_int (j + k) / 10 ^ scale" by (simp add: add_divide_distrib)
  then show ?thesis unfolding decimals_iff by blast
qed

lemma decimals_of_int: "decimals scale (of_int k)"
proof -
  have "(of_int k :: rat) = of_int (k * 10 ^ scale) / 10 ^ scale" by simp
  then show ?thesis unfolding decimals_iff by blast
qed

lemma decimals_table: "decimals 2 (OUTCOME_IMPACT_SCORES t)"
  by (cases t) (simp_all add: decimals_def)

lemma decimals_clamp:
  "decimals scale x \<Longrightarrow> decimals scale (clamp_spec x 0 100)"
  using decimals_of_int [of scale 0] decimals_of_int [of scale 100]
  by (simp add: clamp_spec_def)

subsection \<open>One report\<close>



lemma outcomeUpdate_score:
  "overallScore (outcomeUpdate cur t c) =
     clamp_spec
       (overallScore cur + (case c of Some d \<Rightarrow> d | None \<Rightarrow> OUTCOME_IMPACT_SCORES t)) 0 100"
  by (simp add: outcomeUpdate_def clamp_spec_def Let_def max_def min_def
      split: option.splits)

lemma clamp_spec_range: "0 \<le> clamp_spec x 0 100 \<and> clamp_spec x 0 100 \<le> 100"
  by (simp add: clamp_spec_def)

lemma outcomeUpdate_total: "totalActions (outcomeUpdate cur t c) = totalActions cur + 1"
  by (simp add: outcomeUpdate_def Let_def)

lemma outcomeUpdate_success:
  "successRate (outcomeUpdate cur t c) =
     (successRate cur * of_int (totalActions cur) + (if isSuccess t then 1 else 0))
       / of_int (totalActions cur + 1)"
  by (simp add: outcomeUpdate_def Let_def)

lemma outcomeUpdate_failure:
  "failureRate (outcomeUpdate cur t c) =
     (failureRate cur * of_int (totalActions cur) + (if isFailure t then 1 else 0))
       / of_int (totalActions cur + 1)"
  by (simp add: outcomeUpdate_def Let_def)

lemma outcomeUpdate_harmful:
  "harmfulActions (outcomeUpdate cur t c) = harmfulActions cur + (if t = harmful then 1 else 0)"
  by (simp add: outcomeUpdate_def Let_def)

lemma outcomeUpdate_corrections:
  "userCorrections (outcomeUpdate cur t c) =
     userCorrections cur + (if t = user_corrected then 1 else 0)"
  by (simp add: outcomeUpdate_def Let_def)

lemma rate_range:
  assumes "0 \<le> rate" and "rate \<le> 1" and "0 \<le> n" and "0 \<le> b" and "b \<le> 1"
  shows "0 \<le> (rate * of_int n + b) / of_int (n + 1)
       \<and> (rate * of_int n + b) / of_int (n + 1) \<le> (1::rat)"
proof -
  have n0: "0 \<le> (of_int n :: rat)" using assms(3) by simp
  have pos: "0 < (of_int (n + 1) :: rat)" using assms(3) by simp
  have "0 \<le> rate * of_int n" using assms(1) n0 by simp
  then have num0: "0 \<le> rate * of_int n + b" using assms(4) by simp
  have "rate * of_int n \<le> 1 * of_int n" using assms(2) n0 by (rule mult_right_mono)
  then have num1: "rate * of_int n + b \<le> of_int (n + 1)" using assms(5) by simp
  show ?thesis using num0 num1 pos by simp
qed

lemma recordOutcome_stored:
  assumes cur: "tbl agentId = Some cur" and row: "stored_row cur"
    and total: "totalActions cur < 2147483647"
    and harm: "harmfulActions cur < 2147483647"
    and corr: "userCorrections cur < 2147483647"
  shows "\<exists>r'. recordOutcome tbl agentId t c = Inr (r', tbl(agentId \<mapsto> r'))
      \<and> numeric_column 5 2 (overallScore (outcomeUpdate cur t c)) = Some (overallScore r')
      \<and> stored_row r'
      \<and> totalActions r' = totalActions cur + 1
      \<and> harmfulActions r' = harmfulActions cur + (if t = harmful then 1 else 0)
      \<and> userCorrections r' = userCorrections cur + (if t = user_corrected then 1 else 0)
      \<and> \<bar>successRate r' - successRate (outcomeUpdate cur t c)\<bar> \<le> 1 / 20000
      \<and> \<bar>failureRate r' - failureRate (outcomeUpdate cur t c)\<bar> \<le> 1 / 20000"
proof -
  let ?u = "outcomeUpdate cur t c"
  have r: "0 \<le> successRate cur" "successRate cur \<le> 1" "0 \<le> failureRate cur"
      "failureRate cur \<le> 1" "0 \<le> totalActions cur" "0 \<le> harmfulActions cur"
      "0 \<le> userCorrections cur"
    using row by (simp_all add: stored_row_def)
  have s0: "0 \<le> overallScore ?u" and s1: "overallScore ?u \<le> of_nat 100"
    using clamp_spec_range by (simp_all add: outcomeUpdate_score)
  have sr: "0 \<le> successRate ?u \<and> successRate ?u \<le> of_nat 1"
    unfolding outcomeUpdate_success using rate_range [OF r(1) r(2) r(5)] by simp
  have fr: "0 \<le> failureRate ?u \<and> failureRate ?u \<le> of_nat 1"
    unfolding outcomeUpdate_failure using rate_range [OF r(3) r(4) r(5)] by simp
  obtain s where s: "numeric_column 5 2 (overallScore ?u) = Some s" "0 \<le> s" "s \<le> 100"
      "decimals 2 s"
    using numeric_column_range [OF s0 s1, of 2 5] by auto
  obtain a where a: "numeric_column 5 4 (successRate ?u) = Some a" "0 \<le> a" "a \<le> 1"
      "decimals 4 a" "\<bar>a - successRate ?u\<bar> \<le> 1 / 20000"
    using numeric_column_range [of "successRate ?u" 1 4 5] sr by auto
  obtain b where b: "numeric_column 5 4 (failureRate ?u) = Some b" "0 \<le> b" "b \<le> 1"
      "decimals 4 b" "\<bar>b - failureRate ?u\<bar> \<le> 1 / 20000"
    using numeric_column_range [of "failureRate ?u" 1 4 5] fr by auto
  have n: "integer_column (totalActions ?u) = Some (totalActions cur + 1)"
    using r(5) total by (simp add: outcomeUpdate_total integer_column_def)
  have h: "integer_column (harmfulActions ?u)
      = Some (harmfulActions cur + (if t = harmful then 1 else 0))"
    using r(6) harm by (simp add: outcomeUpdate_harmful integer_column_def)
  have u: "integer_column (userCorrections ?u)
      = Some (userCorrections cur + (if t = user_corrected then 1 else 0))"
    using r(7) corr by (simp add: outcomeUpdate_corrections integer_column_def)
  let ?r = "\<lparr>overallScore = s, totalActions = totalActions cur + 1, successRate = a,
      failureRate = b,
      harmfulActions = harmfulActions cur + (if t = harmful then 1 else 0),
      userCorrections = userCorrections cur + (if t = user_corrected then 1 else 0)\<rparr>"
  have cv: "column_values ?u = Some ?r"
    unfolding column_values_def by (simp only: s(1) a(1) b(1) n h u option.case)
  have run: "recordOutcome tbl agentId t c = Inr (?r, tbl(agentId \<mapsto> ?r))"
    using cur cv by (simp add: recordOutcome_def getReputation_def update_def)
  have st: "stored_row ?r"
    using s(2-4) a(2-4) b(2-4) r(5-7) total harm corr by (simp add: stored_row_def)
  show ?thesis
    using run st s(1) a(5) b(5) by (intro exI [of _ ?r]) simp
qed


text \<open>
  A custom impact with three decimals is stored rounded: \<open>0.125\<close> reported at the
  default score 50 leaves 50.13 in the row that \<open>recordOutcome\<close> returns, where
  \<open>clamp(50 + 0.125, 0, 100)\<close> is 50.125.
\<close>

theorem recordOutcome_custom_impact_rounded:
  "recordOutcome (Map.empty(''a1'' \<mapsto> default_reputation)) ''a1'' success (Some (1 / 8))
     = Inr (\<lparr>overallScore = 5013 / 100, totalActions = 1, successRate = 1,
              failureRate = 0, harmfulActions = 0, userCorrections = 0\<rparr>,
            Map.empty(''a1'' \<mapsto>
              \<lparr>overallScore = 5013 / 100, totalActions = 1, successRate = 1,
                failureRate = 0, harmfulActions = 0, userCorrections = 0\<rparr>))
   \<and> clamp_spec (overallScore default_reputation + 1 / 8) 0 100 = 401 / 8
   \<and> (5013 / 100 :: rat) \<noteq> 401 / 8"
proof -
  have c: "column_values (outcomeUpdate default_reputation success (Some (1 / 8)))
      = Some \<lparr>overallScore = 5013 / 100, totalActions = 1, successRate = 1,
              failureRate = 0, harmfulActions = 0, userCorrections = 0\<rparr>"
    by code_simp
  have run: "recordOutcome (Map.empty(''a1'' \<mapsto> default_reputation)) ''a1'' success
        (Some (1 / 8))
     = Inr (\<lparr>overallScore = 5013 / 100, totalActions = 1, successRate = 1,
              failureRate = 0, harmfulActions = 0, userCorrections = 0\<rparr>,
            Map.empty(''a1'' \<mapsto>
              \<lparr>overallScore = 5013 / 100, totalActions = 1, successRate = 1,
                failureRate = 0, harmfulActions = 0, userCorrections = 0\<rparr>))"
    by (simp add: recordOutcome_def getReputation_def update_def c)
  have clamp: "clamp_spec (overallScore default_reputation + 1 / 8) 0 100 = 401 / 8"
    by (simp add: clamp_spec_def default_reputation_def)
  show ?thesis using run clamp by simp
qed

text \<open>
  C5, amended. For an agent whose row the table holds, with its three counters below the
  largest INTEGER, and for \<open>\<Delta>\<close> the custom impact when one is given (of at most two
  decimals) and the table value otherwise, \<open>recordOutcome\<close> stores and returns
  \<open>overall_score = clamp(overall_score + \<Delta>, 0, 100)\<close>; the table is success 0.5,
  partial success 0.2, failure -0.3, user corrected -0.5, harmful -2; and a harmful
  outcome recorded at score 0 leaves the score at 0.
\<close>

theorem recordOutcome_overall_score:
  assumes "tbl agentId = Some cur" and "stored_row cur"
    and "totalActions cur < 2147483647"
    and "harmfulActions cur < 2147483647"
    and "userCorrections cur < 2147483647"
    and "case c of Some d \<Rightarrow> decimals 2 d | None \<Rightarrow> True"
  shows "(\<exists>r' tbl'. recordOutcome tbl agentId t c = Inr (r', tbl')
           \<and> tbl' agentId = Some r'
           \<and> overallScore r' =
               clamp_spec
                 (overallScore cur
                    + (case c of Some d \<Rightarrow> d | None \<Rightarrow> OUTCOME_IMPACT_SCORES t)) 0 100
           \<and> (overallScore cur = 0 \<and> t = harmful \<and> c = None \<longrightarrow> overallScore r' = 0))
         \<and> map OUTCOME_IMPACT_SCORES
               [success, partial_success, failure, user_corrected, harmful]
             = [1 / 2, 1 / 5, - (3 / 10), - (1 / 2), - 2]"
proof -
  let ?d = "case c of Some d \<Rightarrow> d | None \<Rightarrow> OUTCOME_IMPACT_SCORES t"
  let ?x = "clamp_spec (overallScore cur + ?d) 0 100"
  have "decimals 2 ?d" using assms(6) decimals_table by (simp split: option.splits)
  moreover have "decimals 2 (overallScore cur)" using assms(2) by (simp add: stored_row_def)
  ultimately have dec: "decimals 2 ?x" by (intro decimals_clamp decimals_add)
  have "\<bar>?x\<bar> \<le> 100" using clamp_spec_range [of "overallScore cur + ?d"] by simp
  then have "\<bar>?x\<bar> * 10 ^ 2 < 10 ^ 5" by simp
  then have col: "numeric_column 5 2 ?x = Some ?x" using dec by (intro numeric_column_exact)
  obtain r' where r': "recordOutcome tbl agentId t c = Inr (r', tbl(agentId \<mapsto> r'))"
      "numeric_column 5 2 (overallScore (outcomeUpdate cur t c)) = Some (overallScore r')"
    using recordOutcome_stored [of tbl agentId cur t c] assms(1-5) by blast
  have score: "overallScore r' = ?x" using r'(2) col by (simp add: outcomeUpdate_score)
  have zero: "overallScore cur = 0 \<and> t = harmful \<and> c = None \<longrightarrow> overallScore r' = 0"
    using score by (simp add: clamp_spec_def)
  show ?thesis using r'(1) score zero by simp
qed

theorem recordOutcome_overall_score_witness:
  "(\<exists>r' tbl'.
      recordOutcome (Map.empty(''a1'' \<mapsto> default_reputation\<lparr>overallScore := 0\<rparr>))
        ''a1'' harmful None = Inr (r', tbl')
      \<and> tbl' ''a1'' = Some r' \<and> overallScore r' = 0)
   \<and> (\<exists>r' tbl'.
      recordOutcome (Map.empty(''a1'' \<mapsto> default_reputation))
        ''a1'' failure (Some (1 / 4)) = Inr (r', tbl')
      \<and> tbl' ''a1'' = Some r' \<and> overallScore r' = 201 / 4)"
proof -
  have d: "decimals 2 0" "decimals 4 0" "decimals 2 50" "decimals 2 (1 / 4)"
    by (simp_all add: decimals_def)
  have "\<exists>r' tbl'.
      recordOutcome (Map.empty(''a1'' \<mapsto> default_reputation\<lparr>overallScore := 0\<rparr>))
        ''a1'' harmful None = Inr (r', tbl')
      \<and> tbl' ''a1'' = Some r' \<and> overallScore r' = 0"
    using recordOutcome_overall_score
      [of "Map.empty(''a1'' \<mapsto> default_reputation\<lparr>overallScore := 0\<rparr>)" "''a1''"
          "default_reputation\<lparr>overallScore := 0\<rparr>" None harmful] d
    by (simp add: default_reputation_def clamp_spec_def stored_row_def)
  moreover have "\<exists>r' tbl'.
      recordOutcome (Map.empty(''a1'' \<mapsto> default_reputation))
        ''a1'' failure (Some (1 / 4)) = Inr (r', tbl')
      \<and> tbl' ''a1'' = Some r' \<and> overallScore r' = 201 / 4"
    using recordOutcome_overall_score
      [of "Map.empty(''a1'' \<mapsto> default_reputation)" "''a1''"
          default_reputation "Some (1 / 4)" failure] d
    by (simp add: default_reputation_def clamp_spec_def stored_row_def)
  ultimately show ?thesis by (rule conjI)
qed

subsection \<open>Histories of reports\<close>










section \<open>Properties of the capability engine\<close>

subsection \<open>Token validation\<close>

text \<open>
  C2, as the claim states it, fails at the boundary: an active capability whose
  \<open>expires_at\<close> equals the current time still validates, because the source tests
  \<open>now > expiresAt\<close>.
\<close>

theorem validateToken_boundary_counterexample:
  "expiresAt example_capability = 3600000
   \<and> valid (validateToken id [example_capability] 3600000 ''h1'') = True
   \<and> reason (validateToken id [example_capability] 3600000 ''h1'') = None"
  by (simp add: validateToken_def findByTokenHash_def example_capability_def)

text \<open>
  C2, amended. \<open>validateToken\<close> looks the capability up by the digest of the token.
  When none is found the result is invalid with reason \<open>Token not found\<close>. When one
  is found the result carries it, and is valid exactly when its status is active and
  \<open>now \<le> expires_at\<close>; a revoked one gives reason \<open>Token revoked\<close>, and one that is
  not revoked and has status expired or \<open>expires_at < now\<close> gives reason
  \<open>Token expired\<close>. At \<open>expires_at = now\<close> an active capability is valid: the bound
  is exclusive.
\<close>

theorem validateToken_cases:
  "(case findByTokenHash tbl (digest token) of
      None \<Rightarrow>
        validateToken digest tbl now token =
          \<lparr>valid = False, capability = None, reason = Some ''Token not found''\<rparr>
    | Some c \<Rightarrow>
        capability (validateToken digest tbl now token) = Some c
        \<and> valid (validateToken digest tbl now token)
            = (cap_status c = cap_active \<and> now \<le> expiresAt c)
        \<and> (cap_status c = cap_revoked \<longrightarrow>
              reason (validateToken digest tbl now token) = Some ''Token revoked'')
        \<and> (cap_status c \<noteq> cap_revoked \<and> (cap_status c = cap_expired \<or> expiresAt c < now) \<longrightarrow>
              reason (validateToken digest tbl now token) = Some ''Token expired'')
        \<and> (valid (validateToken digest tbl now token) \<longrightarrow>
              reason (validateToken digest tbl now token) = None)
        \<and> (cap_status c = cap_active \<and> expiresAt c = now \<longrightarrow>
              valid (validateToken digest tbl now token)))"
proof (cases "findByTokenHash tbl (digest token)")
  case None
  then show ?thesis by (simp add: validateToken_def)
next
  case (Some c)
  then show ?thesis
    by (cases "cap_status c") (auto simp: validateToken_def)
qed

theorem validateToken_cases_witness:
  "valid (validateToken id [example_capability] 3600001 ''h1'') = False
   \<and> reason (validateToken id [example_capability] 3600001 ''h1'') = Some ''Token expired''
   \<and> capability (validateToken id [example_capability] 3600001 ''h1'')
       = Some example_capability"
  using validateToken_cases
    [where tbl = "[example_capability]" and digest = id and token = "''h1''"
       and now = 3600001]
  by (simp add: findByTokenHash_def example_capability_def)

subsection \<open>Permission checks\<close>

lemma prototype_keys_no_colon:
  "k \<in> set object_prototype_keys \<Longrightarrow> CHR '':'' \<notin> set k"
  by (auto simp: object_prototype_keys_def)

text \<open>An action of the shape \<open>namespace:verb\<close> names no inherited member.\<close>

lemma colon_not_prototype:
  "CHR '':'' \<in> set action \<Longrightarrow> action \<notin> set object_prototype_keys"
  using prototype_keys_no_colon by blast

lemma wildcard_not_prototype: "p @ '':*'' \<notin> set object_prototype_keys"
  by (rule colon_not_prototype) simp

lemma truthy_js_get:
  "key \<notin> set object_prototype_keys \<Longrightarrow>
   truthy (js_get (cap_scope cap) key) = grants_key cap key"
  by (simp add: js_get_def grants_key_def split: option.splits)

lemma truthy_js_get_value:
  "key \<notin> set object_prototype_keys \<Longrightarrow> truthy (js_get obj key) \<Longrightarrow>
   \<exists>x. js_get obj key = JSValue x \<and> json_truthy x \<and> map_of obj key = Some x"
  by (auto simp: js_get_def split: option.splits)

lemma loop_allowed_iff:
  assumes "action \<notin> set object_prototype_keys"
  shows "(\<exists>v. checkPermission_loop caps action = Allowed v) =
         (\<exists>cap\<in>set caps.
            grants_key cap action \<or> grants_key cap (actionPrefix action @ '':*''))"
  using assms
  by (induction caps) (auto simp: Let_def truthy_js_get wildcard_not_prototype)

lemma loop_allowed_value:
  assumes "action \<notin> set object_prototype_keys"
    and "checkPermission_loop caps action = Allowed v"
  shows "\<exists>cap\<in>set caps. \<exists>x. v = JSValue x \<and> json_truthy x \<and>
           (map_of (cap_scope cap) action = Some x
            \<or> map_of (cap_scope cap) (actionPrefix action @ '':*'') = Some x)"
  using assms
proof (induction caps)
  case Nil
  then show ?case by simp
next
  case (Cons cap caps)
  show ?case
  proof (cases "truthy (js_get (cap_scope cap) action)")
    case True
    then have "v = js_get (cap_scope cap) action"
      using Cons.prems(2) by (simp add: Let_def)
    then show ?thesis
      using truthy_js_get_value [OF Cons.prems(1) True] by auto
  next
    case False
    show ?thesis
    proof (cases "truthy (js_get (cap_scope cap) (actionPrefix action @ '':*''))")
      case True
      then have "v = js_get (cap_scope cap) (actionPrefix action @ '':*'')"
        using Cons.prems(2) False by (simp add: Let_def)
      then show ?thesis
        using truthy_js_get_value [OF wildcard_not_prototype True] by auto
    next
      case wild: False
      then have "checkPermission_loop caps action = Allowed v"
        using Cons.prems(2) False by (simp add: Let_def)
      then show ?thesis using Cons.IH Cons.prems(1) by auto
    qed
  qed
qed

lemma loop_denied:
  "(\<exists>v. checkPermission_loop caps action = Allowed v)
   \<or> checkPermission_loop caps action
       = Denied (''No capability grants permission for: '' @ action)"
  by (induction caps) (auto simp: Let_def)

lemma set_findActiveForAgent:
  "set (findActiveForAgent tbl now agentId) =
     {c \<in> set tbl. cap_agentId c = agentId \<and> cap_status c = cap_active \<and> now \<le> expiresAt c}"
  by (auto simp: findActiveForAgent_def)

text \<open>
  What \<open>scope[action]\<close> finds on a scope that has no such member of its own: any agent
  with an active capability is granted the action \<open>constructor\<close>.
\<close>

lemma checkPermission_inherited_member:
  "checkPermission [example_capability] 1000 ''A'' ''constructor''
     = Allowed (JSInherited ''constructor'')"
  by (simp add: checkPermission_def findActiveForAgent_def example_capability_def
      js_get_def Let_def object_prototype_keys_def)

text \<open>
  C8, as the claim states it, fails for a scope that contains the key with a falsy
  value: the source tests \<open>if (scope[action])\<close>, not membership.
\<close>

theorem checkPermission_falsy_counterexample:
  "map_of (cap_scope (example_capability\<lparr>cap_scope := [(''tool:x.post'', JBool False)]\<rparr>))
       ''tool:x.post'' = Some (JBool False)
   \<and> checkPermission [example_capability\<lparr>cap_scope := [(''tool:x.post'', JBool False)]\<rparr>]
       1000 ''A'' ''tool:x.post''
     = Denied ''No capability grants permission for: tool:x.post''"
  by (simp add: checkPermission_def findActiveForAgent_def example_capability_def
      js_get_def Let_def actionPrefix_def object_prototype_keys_def)

text \<open>
  C8, amended. For an action that is not the name of a member every object inherits
  (so for every action containing a colon), \<open>checkPermission\<close> grants exactly when
  some capability of the agent with status active and \<open>now \<le> expires_at\<close> has a scope
  whose member under the key \<open>action\<close>, or under the wildcard key \<open>prefix:*\<close> for the
  part of \<open>action\<close> before its first colon, is truthy; a granted result carries the
  value of such a member; and a result that is not granted is a denial with a reason.
\<close>

theorem checkPermission_grants:
  assumes "action \<notin> set object_prototype_keys"
  shows "((\<exists>v. checkPermission tbl now agentId action = Allowed v) =
            (\<exists>cap\<in>set tbl. cap_agentId cap = agentId \<and> cap_status cap = cap_active
                \<and> now \<le> expiresAt cap
                \<and> (grants_key cap action \<or> grants_key cap (actionPrefix action @ '':*''))))
       \<and> (\<forall>v. checkPermission tbl now agentId action = Allowed v \<longrightarrow>
            (\<exists>cap\<in>set tbl. cap_agentId cap = agentId \<and> cap_status cap = cap_active
                \<and> now \<le> expiresAt cap
                \<and> (\<exists>x. v = JSValue x \<and> json_truthy x
                      \<and> (map_of (cap_scope cap) action = Some x
                          \<or> map_of (cap_scope cap) (actionPrefix action @ '':*'') = Some x))))
       \<and> ((\<exists>v. checkPermission tbl now agentId action = Allowed v)
            \<or> checkPermission tbl now agentId action
                = Denied (''No capability grants permission for: '' @ action))"
proof (intro conjI allI impI)
  show "(\<exists>v. checkPermission tbl now agentId action = Allowed v) =
            (\<exists>cap\<in>set tbl. cap_agentId cap = agentId \<and> cap_status cap = cap_active
                \<and> now \<le> expiresAt cap
                \<and> (grants_key cap action \<or> grants_key cap (actionPrefix action @ '':*'')))"
    unfolding checkPermission_def loop_allowed_iff [OF assms] set_findActiveForAgent
    by auto
next
  fix v assume "checkPermission tbl now agentId action = Allowed v"
  then have "checkPermission_loop (findActiveForAgent tbl now agentId) action = Allowed v"
    by (simp add: checkPermission_def)
  from loop_allowed_value [OF assms this]
  show "\<exists>cap\<in>set tbl. cap_agentId cap = agentId \<and> cap_status cap = cap_active
                \<and> now \<le> expiresAt cap
                \<and> (\<exists>x. v = JSValue x \<and> json_truthy x
                      \<and> (map_of (cap_scope cap) action = Some x
                          \<or> map_of (cap_scope cap) (actionPrefix action @ '':*'') = Some x))"
    unfolding set_findActiveForAgent by auto
next
  show "(\<exists>v. checkPermission tbl now agentId action = Allowed v)
            \<or> checkPermission tbl now agentId action
                = Denied (''No capability grants permission for: '' @ action)"
    unfolding checkPermission_def by (rule loop_denied)
qed

theorem checkPermission_grants_witness:
  "''tool:wallet.send'' \<notin> set object_prototype_keys
   \<and> checkPermission [example_capability] 1000 ''A'' ''tool:wallet.send''
       = Allowed (JSValue (JObj [(''max_value'', JNum 100)]))
   \<and> grants_key example_capability ''tool:wallet.send''"
proof -
  have h: "''tool:wallet.send'' \<notin> set object_prototype_keys"
    by (rule colon_not_prototype) simp
  have "checkPermission [example_capability] 1000 ''A'' ''tool:wallet.send''
       = Allowed (JSValue (JObj [(''max_value'', JNum 100)]))"
    using checkPermission_grants [OF h, of "[example_capability]" 1000 "''A''"]
    by (auto simp: example_capability_def grants_key_def actionPrefix_def)
  moreover have "grants_key example_capability ''tool:wallet.send''"
    by (simp add: grants_key_def example_capability_def)
  ultimately show ?thesis using h by simp
qed

section \<open>Properties of the request authenticator\<close>

lemma parseInt10_700: "parseInt10 ''700'' = Some 700"
  by (simp add: parseInt10_def is_space_def parse_unsigned_def digit_val_def)

lemma parseInt10_699: "parseInt10 ''699'' = Some 699"
  by (simp add: parseInt10_def is_space_def parse_unsigned_def digit_val_def)

lemma sample_request_signed:
  "sample_verifyAsync (hexToBytes (bytesToHex (''a'' @ ''POST:/api/events::'' @ ''700'')))
     (signed_payload (\<lambda>b. ''{}'') (sample_request ''700'') ''700'')
     (hexToBytes (a_publicKey sample_agent)) = Inr True"
  by code_simp

text \<open>
  C7. With the three headers present and a timestamp that parses to \<open>t\<close>, the agent
  signature path answers \<open>Timestamp expired\<close> exactly when \<open>|now - t| > W\<close>, where
  \<open>now\<close> is the server clock in whole seconds. At \<open>|now - t| = W\<close> a request of an
  active agent with a valid signature is accepted, and at \<open>|now - t| = W + 1\<close> the
  request is rejected as expired. The configured window defaults to 300.
\<close>

theorem verifyAgentSignature_window:
  assumes "x_agent_id req = Some aid" and "aid \<noteq> []"
    and "x_timestamp req = Some ts" and "ts \<noteq> []"
    and "x_signature req = Some sg" and "sg \<noteq> []"
    and "parseInt10 ts = Some t"
  shows "((verifyAgentSignature verify stringify (Some W) agents nowMs req
            = Rejected 401 ''Timestamp expired'')
          = (\<bar>nowMs div 1000 - t\<bar> > W))
       \<and> (\<bar>nowMs div 1000 - t\<bar> = W \<and> findById agents aid = Some agent
            \<and> a_status agent = agent_active
            \<and> verify (hexToBytes sg) (signed_payload stringify req ts)
                 (hexToBytes (a_publicKey agent)) = Inr True
          \<longrightarrow> verifyAgentSignature verify stringify (Some W) agents nowMs req
                = Authenticated agent)
       \<and> (\<bar>nowMs div 1000 - t\<bar> = W + 1
          \<longrightarrow> verifyAgentSignature verify stringify (Some W) agents nowMs req
                = Rejected 401 ''Timestamp expired'')
       \<and> signatureTimestampWindow None = Some 300"
proof -
  have hdr: "\<not> (header_missing (x_agent_id req) \<or> header_missing (x_timestamp req)
           \<or> header_missing (x_signature req))"
    using assms by (simp add: header_missing_def)
  have d: "signatureTimestampWindow None = Some 300"
    by (simp add: signatureTimestampWindow_def parseInt10_def is_space_def
        parse_unsigned_def digit_val_def)
  have a: "(verifyAgentSignature verify stringify (Some W) agents nowMs req
            = Rejected 401 ''Timestamp expired'')
          = (\<bar>nowMs div 1000 - t\<bar> > W)"
    using hdr assms
    by (auto simp: verifyAgentSignature_def Let_def exceeds_window_def
        split: option.splits sum.splits)
  have b: "\<bar>nowMs div 1000 - t\<bar> = W \<and> findById agents aid = Some agent
            \<and> a_status agent = agent_active
            \<and> verify (hexToBytes sg) (signed_payload stringify req ts)
                 (hexToBytes (a_publicKey agent)) = Inr True
          \<longrightarrow> verifyAgentSignature verify stringify (Some W) agents nowMs req
                = Authenticated agent"
    using hdr assms
    by (auto simp: verifyAgentSignature_def Let_def exceeds_window_def)
  have c: "\<bar>nowMs div 1000 - t\<bar> = W + 1
          \<longrightarrow> verifyAgentSignature verify stringify (Some W) agents nowMs req
                = Rejected 401 ''Timestamp expired''"
    using a by auto
  show ?thesis using a b c d by blast
qed

theorem verifyAgentSignature_window_witness:
  "verifyAgentSignature sample_verifyAsync (\<lambda>b. ''{}'') (Some 300) [sample_agent] 1000999
      (sample_request ''700'') = Authenticated sample_agent
   \<and> verifyAgentSignature sample_verifyAsync (\<lambda>b. ''{}'') (Some 300) [sample_agent] 1000999
      (sample_request ''699'') = Rejected 401 ''Timestamp expired''"
proof -
  have accepted:
    "verifyAgentSignature sample_verifyAsync (\<lambda>b. ''{}'') (Some 300) [sample_agent] 1000999
      (sample_request ''700'') = Authenticated sample_agent"
    using verifyAgentSignature_window
      [where req = "sample_request ''700''" and aid = "''A''" and ts = "''700''"
         and sg = "bytesToHex (''a'' @ ''POST:/api/events::'' @ ''700'')" and t = 700
         and W = 300 and nowMs = 1000999 and agents = "[sample_agent]"
         and agent = sample_agent and verify = sample_verifyAsync
         and stringify = "\<lambda>b. ''{}''"]
      parseInt10_700 sample_request_signed
    by (simp add: sample_request_def sample_agent_def findById_def)
  have rejected:
    "verifyAgentSignature sample_verifyAsync (\<lambda>b. ''{}'') (Some 300) [sample_agent] 1000999
      (sample_request ''699'') = Rejected 401 ''Timestamp expired''"
    using verifyAgentSignature_window
      [where req = "sample_request ''699''" and aid = "''A''" and ts = "''699''"
         and sg = "bytesToHex (''a'' @ ''POST:/api/events::'' @ ''699'')" and t = 699
         and W = 300 and nowMs = 1000999 and agents = "[sample_agent]"
         and agent = sample_agent and verify = sample_verifyAsync
         and stringify = "\<lambda>b. ''{}''"]
      parseInt10_699
    by (simp add: sample_request_def)
  show ?thesis using accepted rejected by simp
qed

section \<open>Properties of the byte helpers\<close>

lemma hex_val_hex_digit: "n < 16 \<Longrightarrow> hex_val (hex_digit n) = Some n"
  by (auto simp: hex_val_def hex_digit_def Let_def)

lemma hexToBytes_bytesToHex: "hexToBytes (bytesToHex bs) = bs"
proof (induction bs)
  case Nil
  show ?case by simp
next
  case (Cons b bs)
  have "(of_char b :: nat) < 256" by simp
  then have d: "(of_char b :: nat) div 16 < 16" by arith
  have m: "(of_char b :: nat) mod 16 < 16" by simp
  have "char_of (16 * ((of_char b :: nat) div 16) + (of_char b :: nat) mod 16) = b"
    by simp
  then show ?case using Cons by (simp add: hex_val_hex_digit [OF d] hex_val_hex_digit [OF m])
qed

lemma hexToBytes_61: "hexToBytes ''61'' = ''a''"
  by code_simp

section \<open>Properties of chain verification\<close>

lemma verifyEvent_valid: "vr_valid (verifyEvent lib e pk) = event_ok lib pk e"
  by (auto simp: verifyEvent_def event_ok_def Let_def split: sum.splits)

lemma chain_step_fst:
  "fst (chain_step lib events pk i acc) = fst acc @ index_errors lib events pk i"
  by (simp add: chain_step_def index_errors_def Let_def verifyEvent_valid link_ok_def)

lemma chain_step_snd:
  "snd (chain_step lib events pk i acc) =
     (case snd acc of
        Some j \<Rightarrow> Some j
      | None \<Rightarrow> if index_errors lib events pk i \<noteq> [] then Some i else None)"
  by (simp add: chain_step_def index_errors_def Let_def verifyEvent_valid link_ok_def
      set_first_def split: option.splits)

lemma chain_loop_fst:
  "fst (chain_loop lib events pk i acc) =
     fst acc @ concat (map (index_errors lib events pk) [i..<length events])"
proof (induction lib events pk i acc rule: chain_loop.induct)
  case (1 lib events pk i acc)
  show ?case
  proof (cases "i < length events")
    case True
    then have "[i..<length events] = i # [i + 1..<length events]"
      by (simp add: upt_conv_Cons)
    then show ?thesis using 1 True by (simp add: chain_step_fst)
  next
    case False
    then show ?thesis by simp
  qed
qed

lemma chain_loop_snd:
  "snd (chain_loop lib events pk i acc) =
     (case snd acc of
        Some j \<Rightarrow> Some j
      | None \<Rightarrow> find (\<lambda>k. index_errors lib events pk k \<noteq> []) [i..<length events])"
proof (induction lib events pk i acc rule: chain_loop.induct)
  case (1 lib events pk i acc)
  show ?case
  proof (cases "i < length events")
    case True
    then have "[i..<length events] = i # [i + 1..<length events]"
      by (simp add: upt_conv_Cons)
    then show ?thesis using 1 True by (simp add: chain_step_snd split: option.splits)
  next
    case False
    then show ?thesis by (simp split: option.splits)
  qed
qed

lemma index_errors_Nil_iff:
  "(index_errors lib events pk i = []) =
     (event_ok lib pk (events ! i) \<and> (i = 0 \<or> link_ok events i))"
  by (auto simp: index_errors_def)

lemma find_upt_Some:
  "(find P [0..<n] = Some k) = (k < n \<and> P k \<and> (\<forall>j<k. \<not> P j))"
proof
  assume "find P [0..<n] = Some k"
  then obtain i where i: "i < length [0..<n]" "P ([0..<n] ! i)" "k = [0..<n] ! i"
      "\<forall>j<i. \<not> P ([0..<n] ! j)"
    unfolding find_Some_iff by blast
  then have "k = i" by simp
  with i show "k < n \<and> P k \<and> (\<forall>j<k. \<not> P j)" by auto
next
  assume k: "k < n \<and> P k \<and> (\<forall>j<k. \<not> P j)"
  then have "k < length [0..<n] \<and> P ([0..<n] ! k) \<and> k = [0..<n] ! k
      \<and> (\<forall>j<k. \<not> P ([0..<n] ! j))" by auto
  then show "find P [0..<n] = Some k" unfolding find_Some_iff by blast
qed

lemma find_upt_None: "(find P [0..<n] = None) = (\<forall>k<n. \<not> P k)"
  by (auto simp: find_None_iff)

lemma verifyEventChain_nonempty:
  assumes "events \<noteq> []"
  shows "verifyEventChain lib events pk =
     \<lparr>cv_valid =
        ((if link_ok events 0 then [] else [FirstPrevHashNotNull])
           @ concat (map (index_errors lib events pk) [0..<length events]) = []),
      cv_errors =
        (if link_ok events 0 then [] else [FirstPrevHashNotNull])
          @ concat (map (index_errors lib events pk) [0..<length events]),
      firstInvalidEvent =
        (if link_ok events 0
         then find (\<lambda>k. index_errors lib events pk k \<noteq> []) [0..<length events]
         else Some 0),
      totalEvents = length events\<rparr>"
proof -
  have n: "length events \<noteq> 0" using assms by simp
  show ?thesis
    unfolding verifyEventChain_def Let_def chain_loop_fst chain_loop_snd
    using n by (simp add: link_ok_def)
qed

lemma verifyEventChain_facts:
  "verifyEventChain lib [] pk =
     \<lparr>cv_valid = True, cv_errors = [], firstInvalidEvent = None, totalEvents = 0\<rparr>
   \<and> (events \<noteq> [] \<longrightarrow>
        totalEvents (verifyEventChain lib events pk) = length events
      \<and> cv_errors (verifyEventChain lib events pk) =
          (if link_ok events 0 then [] else [FirstPrevHashNotNull])
            @ concat (map (index_errors lib events pk) [0..<length events])
      \<and> cv_valid (verifyEventChain lib events pk) =
          (\<forall>i<length events. event_ok lib pk (events ! i) \<and> link_ok events i)
      \<and> (firstInvalidEvent (verifyEventChain lib events pk) = None) =
          cv_valid (verifyEventChain lib events pk)
      \<and> (\<forall>k. (firstInvalidEvent (verifyEventChain lib events pk) = Some k) =
            (k < length events
             \<and> \<not> (event_ok lib pk (events ! k) \<and> link_ok events k)
             \<and> (\<forall>j<k. event_ok lib pk (events ! j) \<and> link_ok events j))))"
proof (intro conjI impI)
  show "verifyEventChain lib [] pk =
     \<lparr>cv_valid = True, cv_errors = [], firstInvalidEvent = None, totalEvents = 0\<rparr>"
    by (simp add: verifyEventChain_def)
next
  assume ne: "events \<noteq> []"
  note r = verifyEventChain_nonempty [OF ne, of lib pk]
  let ?P = "\<lambda>k. index_errors lib events pk k \<noteq> []"
  let ?ok = "\<lambda>i. event_ok lib pk (events ! i) \<and> link_ok events i"
  have n: "0 < length events" using ne by simp
  show "totalEvents (verifyEventChain lib events pk) = length events"
    by (simp add: r)
  show "cv_errors (verifyEventChain lib events pk) =
          (if link_ok events 0 then [] else [FirstPrevHashNotNull])
            @ concat (map (index_errors lib events pk) [0..<length events])"
    by (simp add: r)
  have Nil_iff: "link_ok events 0 \<Longrightarrow> (index_errors lib events pk k = []) = ?ok k" for k
    by (cases "k = 0") (auto simp: index_errors_Nil_iff)
  have P_iff: "link_ok events 0 \<Longrightarrow> ?P k = (\<not> ?ok k)" for k
    using Nil_iff [of k] by simp
  have valid_iff: "cv_valid (verifyEventChain lib events pk) = (\<forall>i<length events. ?ok i)"
  proof (cases "link_ok events 0")
    case True
    have "cv_valid (verifyEventChain lib events pk) =
        (\<forall>k\<in>set [0..<length events]. index_errors lib events pk k = [])"
      using True by (simp add: r)
    also have "\<dots> = (\<forall>k<length events. ?ok k)"
      using Nil_iff [OF True] by auto
    finally show ?thesis .
  next
    case False
    then show ?thesis using n by (auto simp: r)
  qed
  show "cv_valid (verifyEventChain lib events pk) = (\<forall>i<length events. ?ok i)"
    by (rule valid_iff)
  show "(firstInvalidEvent (verifyEventChain lib events pk) = None) =
          cv_valid (verifyEventChain lib events pk)"
  proof (cases "link_ok events 0")
    case True
    then show ?thesis unfolding valid_iff using P_iff [OF True]
      by (simp add: r find_upt_None)
  next
    case False
    then show ?thesis unfolding valid_iff using n by (auto simp: r)
  qed
  show "\<forall>k. (firstInvalidEvent (verifyEventChain lib events pk) = Some k) =
            (k < length events \<and> \<not> ?ok k \<and> (\<forall>j<k. ?ok j))"
  proof (cases "link_ok events 0")
    case True
    then show ?thesis using P_iff [OF True]
      by (simp add: r find_upt_Some)
  next
    case False
    have "(0 = k) = (k < length events \<and> \<not> ?ok k \<and> (\<forall>j<k. ?ok j))" for k
      using False n by (cases "k = 0") auto
    then show ?thesis using False by (simp add: r)
  qed
qed

lemma index_errors_first:
  "FirstPrevHashNotNull \<notin> set (concat (map (index_errors lib events pk) [0..<n]))"
  by (auto simp: index_errors_def)

lemma index_errors_invalid:
  "(\<exists>errs. EventInvalid i errs \<in> set (concat (map (index_errors lib events pk) [0..<n])))
     = (i < n \<and> \<not> event_ok lib pk (events ! i))"
proof
  assume "\<exists>errs. EventInvalid i errs \<in> set (concat (map (index_errors lib events pk) [0..<n]))"
  then show "i < n \<and> \<not> event_ok lib pk (events ! i)"
    by (auto simp: index_errors_def split: if_splits)
next
  assume h: "i < n \<and> \<not> event_ok lib pk (events ! i)"
  then have "EventInvalid i (vr_errors (verifyEvent lib (events ! i) pk))
      \<in> set (index_errors lib events pk i)"
    by (simp add: index_errors_def)
  then have "EventInvalid i (vr_errors (verifyEvent lib (events ! i) pk))
      \<in> set (concat (map (index_errors lib events pk) [0..<n]))"
    using h by auto
  then show "\<exists>errs. EventInvalid i errs
      \<in> set (concat (map (index_errors lib events pk) [0..<n]))"
    by blast
qed

lemma index_errors_mismatch:
  "(PrevHashMismatch i h p \<in> set (concat (map (index_errors lib events pk) [0..<n])))
     = (0 < i \<and> i < n \<and> \<not> link_ok events i \<and> h = e_hash (events ! (i - 1))
        \<and> p = e_prev_hash (events ! i))"
  by (auto simp: index_errors_def split: if_splits)

lemma verifyEventChain_error_members:
  assumes "events \<noteq> []"
  shows "(FirstPrevHashNotNull \<in> set (cv_errors (verifyEventChain lib events pk)))
           = (\<not> link_ok events 0)
       \<and> (\<forall>i. (\<exists>errs. EventInvalid i errs \<in> set (cv_errors (verifyEventChain lib events pk)))
              = (i < length events \<and> \<not> event_ok lib pk (events ! i)))
       \<and> (\<forall>i h p. (PrevHashMismatch i h p \<in> set (cv_errors (verifyEventChain lib events pk)))
              = (0 < i \<and> i < length events \<and> \<not> link_ok events i
                 \<and> h = e_hash (events ! (i - 1)) \<and> p = e_prev_hash (events ! i)))"
proof -
  let ?c = "concat (map (index_errors lib events pk) [0..<length events])"
  have e: "set (cv_errors (verifyEventChain lib events pk)) =
      (if link_ok events 0 then {} else {FirstPrevHashNotNull}) \<union> set ?c"
    by (simp add: verifyEventChain_nonempty [OF assms])
  have a: "(FirstPrevHashNotNull \<in> set (cv_errors (verifyEventChain lib events pk)))
           = (\<not> link_ok events 0)"
    unfolding e using index_errors_first [of lib events pk "length events"] by simp
  have b: "(\<exists>errs. EventInvalid i errs \<in> set (cv_errors (verifyEventChain lib events pk)))
              = (i < length events \<and> \<not> event_ok lib pk (events ! i))" for i
    unfolding e using index_errors_invalid [of i lib events pk "length events"] by simp
  have c: "(PrevHashMismatch i h p \<in> set (cv_errors (verifyEventChain lib events pk)))
              = (0 < i \<and> i < length events \<and> \<not> link_ok events i
                 \<and> h = e_hash (events ! (i - 1)) \<and> p = e_prev_hash (events ! i))" for i h p
    unfolding e using index_errors_mismatch [of i h p lib events pk "length events"] by simp
  show ?thesis using a b c by blast
qed

lemma row_to_signed_ok:
  "event_ok lib pk (row_to_signed toISOString e) = row_ok lib toISOString pk e"
proof -
  have "(case ev_correlationId e of None \<Rightarrow> None
          | Some c \<Rightarrow> if c = [] then None else Some c)
      = (if ev_correlationId e = Some [] then None else ev_correlationId e)"
    by (simp split: option.splits)
  then show ?thesis
    by (simp add: event_ok_def row_ok_def row_to_signed_def prepareForSigning_def Let_def)
qed

lemma row_to_signed_link:
  "i < length rows \<Longrightarrow> link_ok (map (row_to_signed toISOString) rows) i = row_linked rows i"
  by (cases i) (simp_all add: link_ok_def row_linked_def row_to_signed_def)

lemma verifyAgentChain_rows:
  assumes agent: "findById agents aid = Some agent"
  shows "\<exists>res. verifyAgentChain lib toISOString agents tbl aid = Inr res
      \<and> totalEvents res = length (getAgentChain tbl aid)
      \<and> cv_valid res =
          (\<forall>i<length (getAgentChain tbl aid).
              row_ok lib toISOString (a_publicKey agent) (getAgentChain tbl aid ! i)
              \<and> row_linked (getAgentChain tbl aid) i)
      \<and> (firstInvalidEvent res = None) = cv_valid res
      \<and> (\<forall>k. (firstInvalidEvent res = Some k) =
            (k < length (getAgentChain tbl aid)
             \<and> \<not> (row_ok lib toISOString (a_publicKey agent) (getAgentChain tbl aid ! k)
                  \<and> row_linked (getAgentChain tbl aid) k)
             \<and> (\<forall>j<k. row_ok lib toISOString (a_publicKey agent) (getAgentChain tbl aid ! j)
                       \<and> row_linked (getAgentChain tbl aid) j)))
      \<and> (FirstPrevHashNotNull \<in> set (cv_errors res)) =
            (getAgentChain tbl aid \<noteq> [] \<and> ev_prevHash (getAgentChain tbl aid ! 0) \<noteq> None)
      \<and> (\<forall>i. (\<exists>errs. EventInvalid i errs \<in> set (cv_errors res)) =
            (i < length (getAgentChain tbl aid)
             \<and> \<not> row_ok lib toISOString (a_publicKey agent) (getAgentChain tbl aid ! i)))
      \<and> (\<forall>i h p. (PrevHashMismatch i h p \<in> set (cv_errors res)) =
            (0 < i \<and> i < length (getAgentChain tbl aid)
             \<and> ev_prevHash (getAgentChain tbl aid ! i)
                 \<noteq> Some (ev_hash (getAgentChain tbl aid ! (i - 1)))
             \<and> h = ev_hash (getAgentChain tbl aid ! (i - 1))
             \<and> p = ev_prevHash (getAgentChain tbl aid ! i)))"
proof (cases "getAgentChain tbl aid = []")
  case True
  then have "verifyAgentChain lib toISOString agents tbl aid =
      Inr \<lparr>cv_valid = True, cv_errors = [], firstInvalidEvent = None, totalEvents = 0\<rparr>"
    using agent by (simp add: verifyAgentChain_def)
  then show ?thesis using True by simp
next
  case False
  let ?rows = "getAgentChain tbl aid"
  let ?pk = "a_publicKey agent"
  let ?events = "map (row_to_signed toISOString) ?rows"
  let ?res = "verifyEventChain lib ?events ?pk"
  let ?ok = "\<lambda>i. row_ok lib toISOString ?pk (?rows ! i) \<and> row_linked ?rows i"
  have ne: "?events \<noteq> []" using False by simp
  have run: "verifyAgentChain lib toISOString agents tbl aid = Inr ?res"
    using agent False by (simp add: verifyAgentChain_def Let_def)
  have ok: "i < length ?rows \<Longrightarrow>
      (event_ok lib ?pk (?events ! i) \<and> link_ok ?events i) = ?ok i" for i
    by (simp add: row_to_signed_ok row_to_signed_link)
  have link: "i < length ?rows \<Longrightarrow> link_ok ?events i = row_linked ?rows i" for i
    by (rule row_to_signed_link)
  have evt: "i < length ?rows \<Longrightarrow> event_ok lib ?pk (?events ! i)
      = row_ok lib toISOString ?pk (?rows ! i)" for i
    by (simp add: row_to_signed_ok)
  have pos: "0 < length ?rows" using False by simp
  note f = verifyEventChain_facts [of lib ?pk ?events]
  note m = verifyEventChain_error_members [OF ne, of lib ?pk]
  have total: "totalEvents ?res = length ?rows" using f ne by simp
  have valid: "cv_valid ?res = (\<forall>i<length ?rows. ?ok i)"
  proof -
    have "cv_valid ?res = (\<forall>i<length ?events. event_ok lib ?pk (?events ! i) \<and> link_ok ?events i)"
      using f ne by blast
    also have "\<dots> = (\<forall>i<length ?rows. ?ok i)" using ok by auto
    finally show ?thesis .
  qed
  have none: "(firstInvalidEvent ?res = None) = cv_valid ?res" using f ne by blast
  have first: "(firstInvalidEvent ?res = Some k) =
      (k < length ?rows \<and> \<not> ?ok k \<and> (\<forall>j<k. ?ok j))" for k
  proof -
    have "(firstInvalidEvent ?res = Some k) =
        (k < length ?events \<and> \<not> (event_ok lib ?pk (?events ! k) \<and> link_ok ?events k)
         \<and> (\<forall>j<k. event_ok lib ?pk (?events ! j) \<and> link_ok ?events j))"
      using f ne by blast
    also have "\<dots> = (k < length ?rows \<and> \<not> ?ok k \<and> (\<forall>j<k. ?ok j))"
    proof (cases "k < length ?rows")
      case True
      then have "j < k \<Longrightarrow> j < length ?rows" for j by simp
      then show ?thesis using True ok by auto
    next
      case False
      then show ?thesis by simp
    qed
    finally show ?thesis .
  qed
  have fst: "(FirstPrevHashNotNull \<in> set (cv_errors ?res)) =
      (?rows \<noteq> [] \<and> ev_prevHash (?rows ! 0) \<noteq> None)"
    using m link [OF pos] False by (simp add: row_linked_def)
  have inv: "(\<exists>errs. EventInvalid i errs \<in> set (cv_errors ?res)) =
      (i < length ?rows \<and> \<not> row_ok lib toISOString ?pk (?rows ! i))" for i
  proof -
    have "(\<exists>errs. EventInvalid i errs \<in> set (cv_errors ?res)) =
        (i < length ?events \<and> \<not> event_ok lib ?pk (?events ! i))"
      using m by blast
    then show ?thesis using evt [of i] by auto
  qed
  have mis: "(PrevHashMismatch i h p \<in> set (cv_errors ?res)) =
      (0 < i \<and> i < length ?rows
       \<and> ev_prevHash (?rows ! i) \<noteq> Some (ev_hash (?rows ! (i - 1)))
       \<and> h = ev_hash (?rows ! (i - 1)) \<and> p = ev_prevHash (?rows ! i))" for i h p
  proof -
    have "(PrevHashMismatch i h p \<in> set (cv_errors ?res)) =
        (0 < i \<and> i < length ?events \<and> \<not> link_ok ?events i
         \<and> h = e_hash (?events ! (i - 1)) \<and> p = e_prev_hash (?events ! i))"
      using m by blast
    also have "\<dots> = (0 < i \<and> i < length ?rows
       \<and> ev_prevHash (?rows ! i) \<noteq> Some (ev_hash (?rows ! (i - 1)))
       \<and> h = ev_hash (?rows ! (i - 1)) \<and> p = ev_prevHash (?rows ! i))"
    proof (cases "0 < i \<and> i < length ?rows")
      case True
      then have "i - 1 < length ?rows" by arith
      then show ?thesis using True link [of i]
        by (simp add: row_linked_def row_to_signed_def)
    next
      case False
      then show ?thesis by auto
    qed
    finally show ?thesis .
  qed
  show ?thesis
    using run total valid none first fst inv mis by (intro exI [of _ ?res]) blast
qed

lemma verifyAgentChain_unknown:
  "findById agents aid = None \<Longrightarrow>
   verifyAgentChain lib toISOString agents tbl aid = Inl (AgentNotFound aid)"
  by (simp add: verifyAgentChain_def)

lemma getAgentChain_chronological:
  "sorted (map (\<lambda>e. (ev_timestamp e, ev_id e)) (getAgentChain tbl aid))
   \<and> set (getAgentChain tbl aid) = {e \<in> set tbl. ev_agentId e = aid}
   \<and> length (getAgentChain tbl aid) = length (filter (\<lambda>e. ev_agentId e = aid) tbl)"
  by (auto simp: getAgentChain_def)

text \<open>
  C4. \<open>verifyEventChain\<close> returns valid with no events for the empty chain. On a chain
  that is not empty it reports the number of events; its errors are, in order, the
  error for a first event whose \<open>prev_hash\<close> is not null, then for every index the
  error of an event whose recomputed hash or signature fails (carrying the index) and
  the error of a later event whose \<open>prev_hash\<close> is not its predecessor's hash (carrying
  the index); it is valid exactly when every event's hash recomputes, every signature
  verifies and every link holds; and the first invalid index it reports is the least
  index with a violation, absent exactly when the chain is valid.

  For a known agent, \<open>verifyAgentChain\<close> returns a result about all the agent's rows
  in the order of \<open>(timestamp, id)\<close>: the number of rows; valid exactly when every
  row's hash column is the digest of the canonical form of its own fields, its
  signature column verifies on that form under the agent's public key, the first
  row's \<open>prev_hash\<close> is null and every later row's \<open>prev_hash\<close> is the hash column of
  the row before it; the least index of a row that fails, absent exactly when valid;
  and among its errors one for a non-null first \<open>prev_hash\<close>, one carrying \<open>i\<close> for
  exactly the rows \<open>i\<close> whose hash or signature fails, and one carrying \<open>i\<close> and the
  two hashes for exactly the later rows \<open>i\<close> whose link fails. For an unknown agent
  it fails with \<open>AgentNotFound\<close>.
\<close>

theorem verifyEventChain_characterised:
  "verifyEventChain lib [] pk =
     \<lparr>cv_valid = True, cv_errors = [], firstInvalidEvent = None, totalEvents = 0\<rparr>
   \<and> (events \<noteq> [] \<longrightarrow>
        totalEvents (verifyEventChain lib events pk) = length events
      \<and> cv_errors (verifyEventChain lib events pk) =
          (if link_ok events 0 then [] else [FirstPrevHashNotNull])
            @ concat (map (index_errors lib events pk) [0..<length events])
      \<and> cv_valid (verifyEventChain lib events pk) =
          (\<forall>i<length events. event_ok lib pk (events ! i) \<and> link_ok events i)
      \<and> (firstInvalidEvent (verifyEventChain lib events pk) = None) =
          cv_valid (verifyEventChain lib events pk)
      \<and> (\<forall>k. (firstInvalidEvent (verifyEventChain lib events pk) = Some k) =
            (k < length events
             \<and> \<not> (event_ok lib pk (events ! k) \<and> link_ok events k)
             \<and> (\<forall>j<k. event_ok lib pk (events ! j) \<and> link_ok events j))))
   \<and> (findById agents aid = Some agent \<longrightarrow>
        (\<exists>res. verifyAgentChain lib toISOString agents tbl aid = Inr res
          \<and> totalEvents res = length (getAgentChain tbl aid)
          \<and> cv_valid res =
              (\<forall>i<length (getAgentChain tbl aid).
                  row_ok lib toISOString (a_publicKey agent) (getAgentChain tbl aid ! i)
                  \<and> row_linked (getAgentChain tbl aid) i)
          \<and> (firstInvalidEvent res = None) = cv_valid res
          \<and> (\<forall>k. (firstInvalidEvent res = Some k) =
                (k < length (getAgentChain tbl aid)
                 \<and> \<not> (row_ok lib toISOString (a_publicKey agent) (getAgentChain tbl aid ! k)
                      \<and> row_linked (getAgentChain tbl aid) k)
                 \<and> (\<forall>j<k. row_ok lib toISOString (a_publicKey agent)
                             (getAgentChain tbl aid ! j)
                           \<and> row_linked (getAgentChain tbl aid) j)))
          \<and> (FirstPrevHashNotNull \<in> set (cv_errors res)) =
                (getAgentChain tbl aid \<noteq> []
                 \<and> ev_prevHash (getAgentChain tbl aid ! 0) \<noteq> None)
          \<and> (\<forall>i. (\<exists>errs. EventInvalid i errs \<in> set (cv_errors res)) =
                (i < length (getAgentChain tbl aid)
                 \<and> \<not> row_ok lib toISOString (a_publicKey agent) (getAgentChain tbl aid ! i)))
          \<and> (\<forall>i h p. (PrevHashMismatch i h p \<in> set (cv_errors res)) =
                (0 < i \<and> i < length (getAgentChain tbl aid)
                 \<and> ev_prevHash (getAgentChain tbl aid ! i)
                     \<noteq> Some (ev_hash (getAgentChain tbl aid ! (i - 1)))
                 \<and> h = ev_hash (getAgentChain tbl aid ! (i - 1))
                 \<and> p = ev_prevHash (getAgentChain tbl aid ! i))))
      \<and> sorted (map (\<lambda>e. (ev_timestamp e, ev_id e)) (getAgentChain tbl aid))
      \<and> set (getAgentChain tbl aid) = {e \<in> set tbl. ev_agentId e = aid}
      \<and> length (getAgentChain tbl aid) = length (filter (\<lambda>e. ev_agentId e = aid) tbl))
   \<and> (findById agents aid = None \<longrightarrow>
        verifyAgentChain lib toISOString agents tbl aid = Inl (AgentNotFound aid))"
proof (intro conjI impI)
  show "verifyEventChain lib [] pk =
     \<lparr>cv_valid = True, cv_errors = [], firstInvalidEvent = None, totalEvents = 0\<rparr>"
    using verifyEventChain_facts [of lib pk events] by blast
next
  assume ne: "events \<noteq> []"
  note f = verifyEventChain_facts [of lib pk events]
  show "totalEvents (verifyEventChain lib events pk) = length events"
    using f ne by blast
  show "cv_errors (verifyEventChain lib events pk) =
          (if link_ok events 0 then [] else [FirstPrevHashNotNull])
            @ concat (map (index_errors lib events pk) [0..<length events])"
    using f ne by blast
  show "cv_valid (verifyEventChain lib events pk) =
          (\<forall>i<length events. event_ok lib pk (events ! i) \<and> link_ok events i)"
    using f ne by blast
  show "(firstInvalidEvent (verifyEventChain lib events pk) = None) =
          cv_valid (verifyEventChain lib events pk)"
    using f ne by blast
  show "\<forall>k. (firstInvalidEvent (verifyEventChain lib events pk) = Some k) =
            (k < length events
             \<and> \<not> (event_ok lib pk (events ! k) \<and> link_ok events k)
             \<and> (\<forall>j<k. event_ok lib pk (events ! j) \<and> link_ok events j))"
    using f ne by blast
next
  assume "findById agents aid = Some agent"
  then show "\<exists>res. verifyAgentChain lib toISOString agents tbl aid = Inr res
          \<and> totalEvents res = length (getAgentChain tbl aid)
          \<and> cv_valid res =
              (\<forall>i<length (getAgentChain tbl aid).
                  row_ok lib toISOString (a_publicKey agent) (getAgentChain tbl aid ! i)
                  \<and> row_linked (getAgentChain tbl aid) i)
          \<and> (firstInvalidEvent res = None) = cv_valid res
          \<and> (\<forall>k. (firstInvalidEvent res = Some k) =
                (k < length (getAgentChain tbl aid)
                 \<and> \<not> (row_ok lib toISOString (a_publicKey agent) (getAgentChain tbl aid ! k)
                      \<and> row_linked (getAgentChain tbl aid) k)
                 \<and> (\<forall>j<k. row_ok lib toISOString (a_publicKey agent)
                             (getAgentChain tbl aid ! j)
                           \<and> row_linked (getAgentChain tbl aid) j)))
          \<and> (FirstPrevHashNotNull \<in> set (cv_errors res)) =
                (getAgentChain tbl aid \<noteq> []
                 \<and> ev_prevHash (getAgentChain tbl aid ! 0) \<noteq> None)
          \<and> (\<forall>i. (\<exists>errs. EventInvalid i errs \<in> set (cv_errors res)) =
                (i < length (getAgentChain tbl aid)
                 \<and> \<not> row_ok lib toISOString (a_publicKey agent) (getAgentChain tbl aid ! i)))
          \<and> (\<forall>i h p. (PrevHashMismatch i h p \<in> set (cv_errors res)) =
                (0 < i \<and> i < length (getAgentChain tbl aid)
                 \<and> ev_prevHash (getAgentChain tbl aid ! i)
                     \<noteq> Some (ev_hash (getAgentChain tbl aid ! (i - 1)))
                 \<and> h = ev_hash (getAgentChain tbl aid ! (i - 1))
                 \<and> p = ev_prevHash (getAgentChain tbl aid ! i)))"
    by (rule verifyAgentChain_rows)
next
  show "sorted (map (\<lambda>e. (ev_timestamp e, ev_id e)) (getAgentChain tbl aid))"
    using getAgentChain_chronological [of tbl aid] by blast
  show "set (getAgentChain tbl aid) = {e \<in> set tbl. ev_agentId e = aid}"
    using getAgentChain_chronological [of tbl aid] by blast
  show "length (getAgentChain tbl aid) = length (filter (\<lambda>e. ev_agentId e = aid) tbl)"
    using getAgentChain_chronological [of tbl aid] by blast
next
  assume "findById agents aid = None"
  then show "verifyAgentChain lib toISOString agents tbl aid = Inl (AgentNotFound aid)"
    by (rule verifyAgentChain_unknown)
qed

lemma signEvent_event_ok:
  "event_ok sample_crypto pkHex (signEvent sample_crypto sample_signAsync u pkHex)"
  by (simp add: event_ok_def signEvent_def sample_crypto_def sample_signAsync_def
      sample_verifyAsync_def prepareForSigning_def Let_def hexToBytes_bytesToHex
      sample_canonicalize_def)

lemma sample_chain_ok:
  "event_ok sample_crypto ''61'' (sample_chain ! 0) \<and> event_ok sample_crypto ''61'' (sample_chain ! 1)
   \<and> link_ok sample_chain 0 \<and> link_ok sample_chain 1 \<and> length sample_chain = 2"
  by (simp add: sample_chain_def Let_def signEventInChain_def signEvent_event_ok link_ok_def)
     (simp add: signEvent_def Let_def)

lemma broken_chain_facts:
  "event_ok sample_crypto ''61'' (broken_chain ! 0) \<and> event_ok sample_crypto ''61'' (broken_chain ! 1)
   \<and> link_ok broken_chain 0 \<and> \<not> link_ok broken_chain 1 \<and> length broken_chain = 2"
  by (simp add: broken_chain_def Let_def signEventInChain_def signEvent_event_ok link_ok_def)
     (simp add: signEvent_def Let_def sample_crypto_def sample_canonicalize_def sample_unsigned_def)

lemma sample_ledger_chain:
  "getAgentChain sample_ledger ''A''
     = [stored_event 1 1 (sample_chain ! 0), stored_event 3 2 (sample_chain ! 1)]"
  by (simp add: getAgentChain_def sample_ledger_def stored_event_def sample_chain_def
      signEventInChain_def signEvent_def sample_unsigned_def Let_def)

lemma altered_ledger_chain:
  "getAgentChain altered_ledger ''A''
     = [stored_event 1 1 (sample_chain ! 0),
        (stored_event 3 2 (sample_chain ! 1))\<lparr>ev_eventType := ''decision_made''\<rparr>]"
  by (simp add: getAgentChain_def altered_ledger_def stored_event_def sample_chain_def
      signEventInChain_def signEvent_def sample_unsigned_def Let_def)

lemma sample_rows_ok:
  "row_ok sample_crypto sample_toISOString ''61'' (stored_event 1 1 (sample_chain ! 0))
   \<and> row_ok sample_crypto sample_toISOString ''61'' (stored_event 3 2 (sample_chain ! 1))
   \<and> \<not> row_ok sample_crypto sample_toISOString ''61''
        ((stored_event 3 2 (sample_chain ! 1))\<lparr>ev_eventType := ''decision_made''\<rparr>)"
  by (simp add: row_ok_def stored_event_def sample_chain_def signEventInChain_def
      signEvent_def sample_unsigned_def sample_crypto_def sample_canonicalize_def
      sample_toISOString_def sample_signAsync_def sample_verifyAsync_def
      hexToBytes_bytesToHex Let_def)

lemma sample_rows_linked:
  "row_linked [stored_event 1 1 (sample_chain ! 0), stored_event 3 2 (sample_chain ! 1)] 0
   \<and> row_linked [stored_event 1 1 (sample_chain ! 0), stored_event 3 2 (sample_chain ! 1)]
        (Suc 0)
   \<and> row_linked [stored_event 1 1 (sample_chain ! 0),
        (stored_event 3 2 (sample_chain ! 1))\<lparr>ev_eventType := ''decision_made''\<rparr>] 0"
  by (simp add: row_linked_def stored_event_def sample_chain_def signEventInChain_def
      signEvent_def sample_unsigned_def Let_def)

theorem verifyEventChain_characterised_witness:
  "cv_valid (verifyEventChain sample_crypto sample_chain ''61'')
   \<and> totalEvents (verifyEventChain sample_crypto sample_chain ''61'') = 2
   \<and> firstInvalidEvent (verifyEventChain sample_crypto broken_chain ''61'') = Some 1
   \<and> (\<exists>res. verifyAgentChain sample_crypto sample_toISOString [sample_agent] sample_ledger
               ''A'' = Inr res
         \<and> cv_valid res \<and> totalEvents res = 2 \<and> firstInvalidEvent res = None)
   \<and> (\<exists>res. verifyAgentChain sample_crypto sample_toISOString [sample_agent] altered_ledger
               ''A'' = Inr res
         \<and> \<not> cv_valid res \<and> totalEvents res = 2 \<and> firstInvalidEvent res = Some 1
         \<and> (\<exists>errs. EventInvalid 1 errs \<in> set (cv_errors res)))
   \<and> verifyAgentChain sample_crypto sample_toISOString [sample_agent] sample_ledger ''C''
       = Inl (AgentNotFound ''C'')"
proof -
  have ne: "sample_chain \<noteq> []" "broken_chain \<noteq> []"
    using sample_chain_ok broken_chain_facts by auto
  have all2: "(\<forall>i<2. P i) = (P 0 \<and> P (Suc 0))" for P :: "nat \<Rightarrow> bool"
    by (auto simp: less_Suc_eq numeral_2_eq_2)
  have all1: "(\<forall>i<Suc 0. P i) = P 0" for P :: "nat \<Rightarrow> bool"
    by auto
  have agent: "findById [sample_agent] ''A'' = Some sample_agent"
      "a_publicKey sample_agent = ''61''" "findById [sample_agent] ''C'' = None"
    by (simp_all add: findById_def sample_agent_def)
  have "cv_valid (verifyEventChain sample_crypto sample_chain ''61'')
      \<and> totalEvents (verifyEventChain sample_crypto sample_chain ''61'') = 2"
    using verifyEventChain_characterised
        [where lib = sample_crypto and pk = "''61''" and events = sample_chain] ne(1)
      sample_chain_ok
    by (simp add: all2)
  moreover have "firstInvalidEvent (verifyEventChain sample_crypto broken_chain ''61'') = Some 1"
    using verifyEventChain_characterised
        [where lib = sample_crypto and pk = "''61''" and events = broken_chain] ne(2)
      broken_chain_facts
    by (simp add: all2)
  moreover have "\<exists>res. verifyAgentChain sample_crypto sample_toISOString [sample_agent]
               sample_ledger ''A'' = Inr res
         \<and> cv_valid res \<and> totalEvents res = 2 \<and> firstInvalidEvent res = None"
  proof -
    from verifyEventChain_characterised
        [where lib = sample_crypto and events = "[]"
           and agents = "[sample_agent]" and aid = "''A''" and agent = sample_agent
           and tbl = sample_ledger and toISOString = sample_toISOString,
         THEN conjunct2, THEN conjunct2, THEN conjunct1, THEN mp, OF agent(1),
         THEN conjunct1]
    obtain res where r:
      "verifyAgentChain sample_crypto sample_toISOString [sample_agent] sample_ledger ''A''
         = Inr res"
      "totalEvents res = length (getAgentChain sample_ledger ''A'')"
      "cv_valid res =
         (\<forall>i<length (getAgentChain sample_ledger ''A'').
             row_ok sample_crypto sample_toISOString (a_publicKey sample_agent)
               (getAgentChain sample_ledger ''A'' ! i)
             \<and> row_linked (getAgentChain sample_ledger ''A'') i)"
      "(firstInvalidEvent res = None) = cv_valid res"
      by (elim exE conjE) (rule that)
    have v: "cv_valid res"
      unfolding r(3) sample_ledger_chain agent(2)
      using sample_rows_ok sample_rows_linked by (simp add: less_Suc_eq)
    have "totalEvents res = 2" unfolding r(2) sample_ledger_chain by simp
    then show ?thesis using r(1) r(4) v by blast
  qed
  moreover have "\<exists>res. verifyAgentChain sample_crypto sample_toISOString [sample_agent]
               altered_ledger ''A'' = Inr res
         \<and> \<not> cv_valid res \<and> totalEvents res = 2 \<and> firstInvalidEvent res = Some 1
         \<and> (\<exists>errs. EventInvalid 1 errs \<in> set (cv_errors res))"
  proof -
    from verifyEventChain_characterised
        [where lib = sample_crypto and events = "[]"
           and agents = "[sample_agent]" and aid = "''A''" and agent = sample_agent
           and tbl = altered_ledger and toISOString = sample_toISOString,
         THEN conjunct2, THEN conjunct2, THEN conjunct1, THEN mp, OF agent(1),
         THEN conjunct1]
    obtain res where r:
      "verifyAgentChain sample_crypto sample_toISOString [sample_agent] altered_ledger ''A''
         = Inr res"
      "totalEvents res = length (getAgentChain altered_ledger ''A'')"
      "cv_valid res =
         (\<forall>i<length (getAgentChain altered_ledger ''A'').
             row_ok sample_crypto sample_toISOString (a_publicKey sample_agent)
               (getAgentChain altered_ledger ''A'' ! i)
             \<and> row_linked (getAgentChain altered_ledger ''A'') i)"
      "\<forall>k. (firstInvalidEvent res = Some k) =
            (k < length (getAgentChain altered_ledger ''A'')
             \<and> \<not> (row_ok sample_crypto sample_toISOString (a_publicKey sample_agent)
                    (getAgentChain altered_ledger ''A'' ! k)
                  \<and> row_linked (getAgentChain altered_ledger ''A'') k)
             \<and> (\<forall>j<k. row_ok sample_crypto sample_toISOString (a_publicKey sample_agent)
                         (getAgentChain altered_ledger ''A'' ! j)
                       \<and> row_linked (getAgentChain altered_ledger ''A'') j))"
      "\<forall>i. (\<exists>errs. EventInvalid i errs \<in> set (cv_errors res)) =
            (i < length (getAgentChain altered_ledger ''A'')
             \<and> \<not> row_ok sample_crypto sample_toISOString (a_publicKey sample_agent)
                   (getAgentChain altered_ledger ''A'' ! i))"
      by (elim exE conjE) (rule that)
    have v: "\<not> cv_valid res"
      unfolding r(3) altered_ledger_chain agent(2)
      using sample_rows_ok by (auto simp: less_Suc_eq)
    have t: "totalEvents res = 2" unfolding r(2) altered_ledger_chain by simp
    have "firstInvalidEvent res = Some (Suc 0)"
      using r(4) [rule_format, of "Suc 0"] sample_rows_ok sample_rows_linked
      unfolding altered_ledger_chain agent(2) by simp
    then have f: "firstInvalidEvent res = Some 1" by simp
    have "\<exists>errs. EventInvalid (Suc 0) errs \<in> set (cv_errors res)"
      using r(5) [rule_format, of "Suc 0"] sample_rows_ok
      unfolding altered_ledger_chain agent(2) by simp
    then have e: "\<exists>errs. EventInvalid 1 errs \<in> set (cv_errors res)" by simp
    show ?thesis using r(1) v t f e by blast
  qed
  moreover have "verifyAgentChain sample_crypto sample_toISOString [sample_agent]
      sample_ledger ''C'' = Inl (AgentNotFound ''C'')"
    using verifyEventChain_characterised
        [where lib = sample_crypto and events = "[]"
           and agents = "[sample_agent]" and aid = "''C''"
           and tbl = sample_ledger and toISOString = sample_toISOString]
      agent(3)
    by simp
  ultimately show ?thesis by blast
qed

section \<open>Properties of event admission\<close>

lemma appendEvent_never_chain_broken:
  "fst (appendEvent lib toISOString agents tbl now1 now2 r) \<noteq> Inl (HashChainBroken p q)"
  by (auto simp: appendEvent_def Let_def rebuild_signed_def append_row_def
      split: option.splits)

lemma client_request_fields:
  "rq_agentId (client_request lib signAsync toISOString aid eventType t payload correlationId
       lastEventHash sk) = aid
   \<and> rq_timestamp (client_request lib signAsync toISOString aid eventType t payload
       correlationId lastEventHash sk) = Some t
   \<and> rq_hash (client_request lib signAsync toISOString aid eventType t payload correlationId
       lastEventHash sk)
     = sha256 lib (canonicalize lib
         (unsigned_event toISOString aid eventType t payload correlationId lastEventHash))"
  by (simp add: client_request_def signEventInChain_def signEvent_def Let_def
      unsigned_event_def)

lemma rebuild_client_request:
  "prepareForSigning
     (rebuild_signed toISOString
        (client_request lib signAsync toISOString aid eventType t payload correlationId
           lastEventHash sk) prevHash now)
   = unsigned_event toISOString aid eventType t payload correlationId prevHash"
  by (simp add: client_request_def rebuild_signed_def prepareForSigning_def Let_def
      unsigned_event_def)

lemma verifyEvent_hash_mismatch:
  assumes "sha256 lib (canonicalize lib (prepareForSigning e)) \<noteq> e_hash e"
  shows "\<not> vr_valid (verifyEvent lib e pk)
       \<and> HashMismatch (e_hash e) (sha256 lib (canonicalize lib (prepareForSigning e)))
            \<in> set (vr_errors (verifyEvent lib e pk))"
  using assms by (auto simp: verifyEvent_def Let_def split: sum.splits)

text \<open>
  C1. What the code does: the request carries no \<open>prev_hash\<close>; \<open>appendEvent\<close>
  verifies the event it rebuilt around its own \<open>prev_hash\<close>, and only then compares
  that event's \<open>prev_hash\<close> with the value it was built from. So no request at all
  fails with the chain-broken error; and the request of a client of agent \<open>A\<close> that
  signed over the previous hash \<open>ff\<close>, while the agent has no stored event, is turned
  away by the verification (hash mismatch and invalid signature), the table staying
  empty.
\<close>

theorem appendEvent_chain_check_unreachable:
  "fst (appendEvent lib toISOString agents tbl now1 now2 r) \<noteq> Inl (HashChainBroken p q)
   \<and> getLastEventForAgent [] ''A'' = None
   \<and> appendEvent sample_crypto sample_toISOString [sample_agent] [] 5 5 stale_request
     = (Inl (EventVerificationFailed
               [HashMismatch ''A|input_received|T1|ff'' ''A|input_received|T1|null'',
                InvalidSignature]), [])"
proof -
  have "appendEvent sample_crypto sample_toISOString [sample_agent] [] 5 5 stale_request
     = (Inl (EventVerificationFailed
               [HashMismatch ''A|input_received|T1|ff'' ''A|input_received|T1|null'',
                InvalidSignature]), [])"
    by (simp add: appendEvent_def stale_request_def client_request_def signEventInChain_def
        signEvent_def rebuild_signed_def verifyEvent_def prepareForSigning_def
        getLastEventForAgent_def findById_def sample_agent_def sample_crypto_def
        sample_canonicalize_def sample_signAsync_def sample_verifyAsync_def
        sample_toISOString_def Let_def hexToBytes_bytesToHex hexToBytes_61)
  moreover have "getLastEventForAgent [] ''A'' = None"
    by (simp add: getLastEventForAgent_def)
  ultimately show ?thesis
    using appendEvent_never_chain_broken [of lib toISOString agents tbl now1 now2 r p q]
    by simp
qed

text \<open>
  In general: for a request of the client of an active agent, signed over a
  \<open>prev_hash\<close> that differs from the server's derived one (the hash of the agent's last
  stored event, or none), so that the digests of the two canonical forms differ,
  \<open>appendEvent\<close> fails with the event-verification error, whose hash-mismatch entry
  reports the submitted and the recomputed event hash, and the table is unchanged.
\<close>

lemma appendEvent_prev_hash_mismatch:
  assumes "findById agents aid = Some agent" and "a_status agent = agent_active"
    and "req = client_request lib signAsync toISOString aid eventType t payload
                 correlationId clientPrev sk"
    and "serverPrev =
           (case getLastEventForAgent tbl aid of Some l \<Rightarrow> Some (ev_hash l) | None \<Rightarrow> None)"
    and "clientPrev \<noteq> serverPrev"
    and "sha256 lib (canonicalize lib
            (unsigned_event toISOString aid eventType t payload correlationId clientPrev))
         \<noteq> sha256 lib (canonicalize lib
            (unsigned_event toISOString aid eventType t payload correlationId serverPrev))"
  shows "(\<exists>errs. appendEvent lib toISOString agents tbl now1 now2 req
              = (Inl (EventVerificationFailed errs), tbl)
            \<and> HashMismatch (rq_hash req)
                 (sha256 lib (canonicalize lib
                    (unsigned_event toISOString aid eventType t payload correlationId
                       serverPrev))) \<in> set errs)
       \<and> (\<forall>r p q. fst (appendEvent lib toISOString agents tbl now1 now2 r)
              \<noteq> Inl (HashChainBroken p q))"
proof -
  let ?signed = "rebuild_signed toISOString req serverPrev now1"
  note f = client_request_fields [of lib signAsync toISOString aid eventType t payload
      correlationId clientPrev sk]
  have pre: "prepareForSigning ?signed
      = unsigned_event toISOString aid eventType t payload correlationId serverPrev"
    unfolding assms(3) by (rule rebuild_client_request)
  have h: "e_hash ?signed = rq_hash req" by (simp add: rebuild_signed_def)
  have "sha256 lib (canonicalize lib (prepareForSigning ?signed)) \<noteq> e_hash ?signed"
    unfolding pre h using assms(6) f by (simp add: assms(3))
  from verifyEvent_hash_mismatch [OF this, of "a_publicKey agent"]
  have bad: "\<not> vr_valid (verifyEvent lib ?signed (a_publicKey agent))"
    and mem: "HashMismatch (rq_hash req)
        (sha256 lib (canonicalize lib
           (unsigned_event toISOString aid eventType t payload correlationId serverPrev)))
        \<in> set (vr_errors (verifyEvent lib ?signed (a_publicKey agent)))"
    unfolding pre h by simp_all
  have aid: "rq_agentId req = aid" using f by (simp add: assms(3))
  have "appendEvent lib toISOString agents tbl now1 now2 req
      = (Inl (EventVerificationFailed
               (vr_errors (verifyEvent lib ?signed (a_publicKey agent)))), tbl)"
    using assms(1,2) bad unfolding appendEvent_def aid assms(4) by (simp add: Let_def)
  then show ?thesis using mem appendEvent_never_chain_broken by blast
qed

lemma appendEvent_prev_hash_mismatch_example:
  "\<exists>errs. appendEvent sample_crypto sample_toISOString [sample_agent] [] 5 5 stale_request
              = (Inl (EventVerificationFailed errs), [])
          \<and> HashMismatch ''A|input_received|T1|ff'' ''A|input_received|T1|null'' \<in> set errs"
  using appendEvent_prev_hash_mismatch
    [where lib = sample_crypto and signAsync = sample_signAsync
       and toISOString = sample_toISOString and agents = "[sample_agent]"
       and aid = "''A''" and agent = sample_agent and tbl = "[]"
       and eventType = "''input_received''" and t = 1
       and payload = "JObj [(''i'', JNum 1)]" and correlationId = None
       and clientPrev = "Some ''ff''" and serverPrev = None and sk = "''61''"
       and req = stale_request and ?now1.0 = 5 and ?now2.0 = 5]
  by (simp add: stale_request_def findById_def sample_agent_def getLastEventForAgent_def
      unsigned_event_def sample_crypto_def sample_canonicalize_def sample_toISOString_def
      client_request_def signEventInChain_def signEvent_def Let_def)

section \<open>Properties of event queries\<close>













section \<open>Properties of the keystore\<close>

lemma subarray_nonneg:
  "0 \<le> s \<Longrightarrow> s \<le> e \<Longrightarrow> e \<le> int (length b) \<Longrightarrow>
   subarray b s e = take (nat e - nat s) (drop (nat s) b)"
proof -
  assume a: "0 \<le> s" "s \<le> e" "e \<le> int (length b)"
  then have "nat e \<le> length b" "nat s \<le> length b" by linarith+
  then show ?thesis using a by (simp add: subarray_def clamp_index_def Let_def min_def)
qed

lemma split_combined:
  assumes "length tag = 16" and "length iv = 16"
  shows "subarray (ct @ tag @ iv) (int (length (ct @ tag @ iv)) - 16)
           (int (length (ct @ tag @ iv))) = iv"
    and "subarray (ct @ tag @ iv) (int (length (ct @ tag @ iv)) - 32)
           (int (length (ct @ tag @ iv)) - 16) = tag"
    and "subarray (ct @ tag @ iv) 0 (int (length (ct @ tag @ iv)) - 32) = ct"
  using assms by (simp_all add: subarray_nonneg nat_add_distrib)

lemma roundtrip:
  assumes "length (snd (gcm_encrypt lib (scryptAsync lib password salt 32) iv k)) = 16"
    and "length iv = 16"
    and "gcm_decrypt lib (scryptAsync lib password salt 32) iv
           (fst (gcm_encrypt lib (scryptAsync lib password salt 32) iv k))
           (snd (gcm_encrypt lib (scryptAsync lib password salt 32) iv k)) = Some k"
  shows "decryptKeystore lib (encryptKeystore lib salt iv rid k agentId password) password = Inr k"
  using assms
  by (simp add: decryptKeystore_def encryptKeystore_def Let_def hexToBytes_bytesToHex
      split_combined del: length_append)

lemma mac_changed:
  assumes "mac' \<noteq> kc_mac (ks_crypto (encryptKeystore lib salt iv rid k agentId password))"
  shows "decryptKeystore lib
           (with_mac (encryptKeystore lib salt iv rid k agentId password) mac') password
         = Inl MacMismatch"
  using assms
  by (simp add: decryptKeystore_def encryptKeystore_def with_mac_def Let_def
      hexToBytes_bytesToHex)

lemma cost_ignored:
  "decryptKeystore lib (with_cost keystore n r p) password = decryptKeystore lib keystore password"
  by (simp add: decryptKeystore_def with_cost_def Let_def)

lemma wrong_password:
  assumes "subarray (scryptAsync lib password' salt 32) 16 32
             \<noteq> subarray (scryptAsync lib password salt 32) 16 32"
    and "no_collision lib
           (subarray (scryptAsync lib password' salt 32) 16 32
              @ hexToBytes (kc_ciphertext (ks_crypto
                  (encryptKeystore lib salt iv rid k agentId password))))
           (subarray (scryptAsync lib password salt 32) 16 32
              @ hexToBytes (kc_ciphertext (ks_crypto
                  (encryptKeystore lib salt iv rid k agentId password))))"
  shows "decryptKeystore lib (encryptKeystore lib salt iv rid k agentId password) password'
         = Inl MacMismatch"
  using assms
  by (simp add: decryptKeystore_def encryptKeystore_def Let_def hexToBytes_bytesToHex
      no_collision_def)

lemma ciphertext_changed:
  assumes "hexToBytes text
             \<noteq> hexToBytes (kc_ciphertext (ks_crypto
                   (encryptKeystore lib salt iv rid k agentId password)))"
    and "no_collision lib
           (subarray (scryptAsync lib password salt 32) 16 32 @ hexToBytes text)
           (subarray (scryptAsync lib password salt 32) 16 32
              @ hexToBytes (kc_ciphertext (ks_crypto
                  (encryptKeystore lib salt iv rid k agentId password))))"
  shows "decryptKeystore lib
           (with_ciphertext (encryptKeystore lib salt iv rid k agentId password) text)
           password
         = Inl MacMismatch"
  using assms
  by (simp add: decryptKeystore_def encryptKeystore_def with_ciphertext_def Let_def
      hexToBytes_bytesToHex no_collision_def)

lemma length_sample_scrypt: "length (sample_scrypt password salt 32 opts) = 32"
  by (simp add: sample_scrypt_def)

lemma length_sample_tag: "length (sample_tag key iv msg) = 16"
  by (simp add: sample_tag_def)

lemma sample_aead:
  "gcm_decrypt sample_keystore_lib (scryptAsync sample_keystore_lib password salt 32) iv
     (fst (gcm_encrypt sample_keystore_lib (scryptAsync sample_keystore_lib password salt 32) iv k))
     (snd (gcm_encrypt sample_keystore_lib (scryptAsync sample_keystore_lib password salt 32) iv k))
   = Some k"
  by (simp add: sample_keystore_lib_def scryptAsync_def length_sample_scrypt)

lemma subarray_second_half:
  "length a = 16 \<Longrightarrow> length b = 16 \<Longrightarrow> subarray (take 32 (a @ b)) 16 32 = b"
  by (simp add: subarray_nonneg)

lemma sample_mac_key:
  "subarray (scryptAsync sample_keystore_lib password salt 32) 16 32
     = take 16 (password @ [char_of (16::nat)] @ replicate 16 (CHR ''-''))"
proof -
  have a: "length (take 16 (salt @ replicate 16 (CHR ''-''))) = 16" by simp
  have b: "length (take 16 (password @ [char_of (16::nat)] @ replicate 16 (CHR ''-''))) = 16"
    by simp
  show ?thesis
    unfolding scryptAsync_def sample_keystore_lib_def sample_scrypt_def
      node_scrypt_defaults_def
    using subarray_second_half [OF a b] by simp
qed

lemma sample_keys_differ:
  "subarray (scryptAsync sample_keystore_lib ''px'' sample_salt 32) 16 32
     \<noteq> subarray (scryptAsync sample_keystore_lib ''pw'' sample_salt 32) 16 32"
  by (simp add: sample_mac_key)

lemma sample_no_collision: "no_collision sample_keystore_lib a b"
  by (simp add: no_collision_def sample_keystore_lib_def)

text \<open>
  C3. What the code does: \<open>encryptKeystore\<close> records the scrypt parameters N = 262144,
  r = 8, p = 1 and key length 32, but the key behind its MAC is the one \<open>scrypt\<close>
  derives with cost 16384, block size 8 and parallelization 1 (the defaults of a call
  without options); and the result of \<open>decryptKeystore\<close> does not depend on the
  recorded N, r and p.
\<close>

theorem keystore_cost_parameters_unused:
  "kc_kdfparams (ks_crypto (encryptKeystore lib salt iv rid k agentId password))
     = \<lparr>kp_salt = bytesToHex salt, kp_n = 262144, kp_r = 8, kp_p = 1, kp_dklen = 32\<rparr>
   \<and> kc_mac (ks_crypto (encryptKeystore lib salt iv rid k agentId password))
     = sha256_hex lib
         (subarray
            (scrypt lib password salt 32
               \<lparr>sc_cost = 16384, sc_blockSize = 8, sc_parallelization = 1\<rparr>) 16 32
          @ hexToBytes (kc_ciphertext (ks_crypto
              (encryptKeystore lib salt iv rid k agentId password))))
   \<and> decryptKeystore lib (with_cost keystore n r p) password
     = decryptKeystore lib keystore password"
  by (simp add: encryptKeystore_def Let_def scryptAsync_def node_scrypt_defaults_def
      hexToBytes_bytesToHex cost_ignored)

text \<open>
  C9. Let the cipher decrypt what it encrypted under the derived key, with a tag of 16
  bytes, and let the iv have 16 bytes. Then decrypting the keystore that
  \<open>encryptKeystore\<close> wrote, with the same password, returns the private key. With
  another password, whose derived key differs in the half that keys the MAC,
  decryption fails with the MAC mismatch; so it does when the stored mac is changed in
  any way, and when the stored ciphertext is changed so that it encodes other bytes:
  in both digest comparisons provided the digest does not collide on the two inputs
  compared.
\<close>

theorem keystore_roundtrip:
  assumes "length iv = 16"
    and "length (snd (gcm_encrypt lib (scryptAsync lib password salt 32) iv k)) = 16"
    and "gcm_decrypt lib (scryptAsync lib password salt 32) iv
           (fst (gcm_encrypt lib (scryptAsync lib password salt 32) iv k))
           (snd (gcm_encrypt lib (scryptAsync lib password salt 32) iv k)) = Some k"
    and "keystore = encryptKeystore lib salt iv rid k agentId password"
    and "combined = hexToBytes (kc_ciphertext (ks_crypto keystore))"
    and "mac_key = subarray (scryptAsync lib password salt 32) 16 32"
  shows "decryptKeystore lib keystore password = Inr k
       \<and> (\<forall>password'.
             subarray (scryptAsync lib password' salt 32) 16 32 \<noteq> mac_key
             \<and> no_collision lib
                  (subarray (scryptAsync lib password' salt 32) 16 32 @ combined)
                  (mac_key @ combined)
             \<longrightarrow> decryptKeystore lib keystore password' = Inl MacMismatch)
       \<and> (\<forall>mac'. mac' \<noteq> kc_mac (ks_crypto keystore)
             \<longrightarrow> decryptKeystore lib (with_mac keystore mac') password = Inl MacMismatch)
       \<and> (\<forall>stored. hexToBytes stored \<noteq> combined
             \<and> no_collision lib (mac_key @ hexToBytes stored) (mac_key @ combined)
             \<longrightarrow> decryptKeystore lib (with_ciphertext keystore stored) password
                   = Inl MacMismatch)"
  unfolding assms(4,5,6)
proof (intro conjI allI impI)
  show "decryptKeystore lib (encryptKeystore lib salt iv rid k agentId password) password
      = Inr k"
    using assms(2,1,3) by (rule roundtrip)
next
  fix password'
  assume "subarray (scryptAsync lib password' salt 32) 16 32
            \<noteq> subarray (scryptAsync lib password salt 32) 16 32
          \<and> no_collision lib
               (subarray (scryptAsync lib password' salt 32) 16 32
                  @ hexToBytes (kc_ciphertext (ks_crypto
                      (encryptKeystore lib salt iv rid k agentId password))))
               (subarray (scryptAsync lib password salt 32) 16 32
                  @ hexToBytes (kc_ciphertext (ks_crypto
                      (encryptKeystore lib salt iv rid k agentId password))))"
  then show "decryptKeystore lib (encryptKeystore lib salt iv rid k agentId password)
      password' = Inl MacMismatch"
    using wrong_password by blast
next
  fix mac'
  assume "mac' \<noteq> kc_mac (ks_crypto (encryptKeystore lib salt iv rid k agentId password))"
  then show "decryptKeystore lib
      (with_mac (encryptKeystore lib salt iv rid k agentId password) mac') password
      = Inl MacMismatch"
    by (rule mac_changed)
next
  fix stored
  assume "hexToBytes stored
            \<noteq> hexToBytes (kc_ciphertext (ks_crypto
                  (encryptKeystore lib salt iv rid k agentId password)))
          \<and> no_collision lib
               (subarray (scryptAsync lib password salt 32) 16 32 @ hexToBytes stored)
               (subarray (scryptAsync lib password salt 32) 16 32
                  @ hexToBytes (kc_ciphertext (ks_crypto
                      (encryptKeystore lib salt iv rid k agentId password))))"
  then show "decryptKeystore lib
      (with_ciphertext (encryptKeystore lib salt iv rid k agentId password) stored) password
      = Inl MacMismatch"
    using ciphertext_changed by blast
qed

lemma sample_combined:
  "hexToBytes (kc_ciphertext (ks_crypto
      (encryptKeystore sample_keystore_lib sample_salt sample_iv rid k agentId password)))
   = k @ sample_tag (scryptAsync sample_keystore_lib password sample_salt 32) sample_iv k
       @ sample_iv"
  by (simp add: encryptKeystore_def Let_def hexToBytes_bytesToHex sample_keystore_lib_def)

theorem keystore_roundtrip_witness:
  "decryptKeystore sample_keystore_lib
     (encryptKeystore sample_keystore_lib sample_salt sample_iv ''id'' ''c0ffee'' ''A'' ''pw'')
     ''pw'' = Inr ''c0ffee''
   \<and> decryptKeystore sample_keystore_lib
     (encryptKeystore sample_keystore_lib sample_salt sample_iv ''id'' ''c0ffee'' ''A'' ''pw'')
     ''px'' = Inl MacMismatch
   \<and> decryptKeystore sample_keystore_lib
     (with_mac
        (encryptKeystore sample_keystore_lib sample_salt sample_iv ''id'' ''c0ffee'' ''A''
           ''pw'') ''00'')
     ''pw'' = Inl MacMismatch
   \<and> decryptKeystore sample_keystore_lib
     (with_ciphertext
        (encryptKeystore sample_keystore_lib sample_salt sample_iv ''id'' ''c0ffee'' ''A''
           ''pw'')
        (bytesToHex (CHR ''d'' # tl (hexToBytes (kc_ciphertext (ks_crypto
           (encryptKeystore sample_keystore_lib sample_salt sample_iv ''id'' ''c0ffee'' ''A''
              ''pw'')))))))
     ''pw'' = Inl MacMismatch"
proof -
  let ?ks = "encryptKeystore sample_keystore_lib sample_salt sample_iv ''id'' ''c0ffee'' ''A''
    ''pw''"
  have iv: "length sample_iv = 16" by (simp add: sample_iv_def)
  have tag: "length (snd (gcm_encrypt sample_keystore_lib
      (scryptAsync sample_keystore_lib ''pw'' sample_salt 32) sample_iv ''c0ffee'')) = 16"
    by (simp add: sample_keystore_lib_def length_sample_tag)
  note w = keystore_roundtrip [OF iv tag sample_aead refl refl refl,
      where rid = "''id''" and agentId = "''A''"]
  have mac: "''00'' \<noteq> kc_mac (ks_crypto ?ks)"
    by (simp add: encryptKeystore_def Let_def sample_mac_key)
      (simp add: sample_keystore_lib_def)
  have changed: "hexToBytes (bytesToHex (CHR ''d'' # tl (hexToBytes (kc_ciphertext
      (ks_crypto ?ks))))) \<noteq> hexToBytes (kc_ciphertext (ks_crypto ?ks))"
    unfolding hexToBytes_bytesToHex sample_combined by simp
  show ?thesis
    using w sample_keys_differ sample_no_collision mac changed by blast
qed

end
